theory Spec2Isabelle
  imports Main "HOL-Library.Multiset"
begin

section \<open>Chad 5401 session capture: windowing, routing and the processing pass\<close>

text \<open>
  The development follows \<^verbatim>\<open>src/server.js\<close>. JavaScript strings are modelled as
  \<^typ>\<open>string\<close> restricted to ASCII text, \<^verbatim>\<open>null\<close>/\<^verbatim>\<open>undefined\<close> as \<^term>\<open>None\<close>,
  and the truthiness tests of the source (\<^verbatim>\<open>x || d\<close>, \<^verbatim>\<open>if (x)\<close>) are written out: the empty
  string and the number \<^verbatim>\<open>0\<close> are falsy like \<^verbatim>\<open>null\<close>. Timestamps are integers, the
  milliseconds of a well-formed date. The record store is a parameter of the pass; its
  calls return a result or an error and never raise.
\<close>

subsection \<open>String primitives of the source language\<close>

definition bslash :: char where
  "bslash = CHR 0x5C"

definition dquote :: char where
  "dquote = CHR 0x22"

text \<open>\<^verbatim>\<open>s.startsWith(p)\<close>, with the pattern first.\<close>

fun starts_with :: "string \<Rightarrow> string \<Rightarrow> bool" where
  "starts_with [] s = True"
| "starts_with (p # ps) [] = False"
| "starts_with (p # ps) (c # cs) = (p = c \<and> starts_with ps cs)"

text \<open>\<^verbatim>\<open>s.includes(p)\<close>, with the haystack first as in the source.\<close>

fun str_includes :: "string \<Rightarrow> string \<Rightarrow> bool" where
  "str_includes [] p = (p = [])"
| "str_includes (c # cs) p = (starts_with p (c # cs) \<or> str_includes cs p)"

definition ends_with :: "string \<Rightarrow> string \<Rightarrow> bool" where
  "ends_with s p = starts_with (rev p) (rev s)"

definition to_lower_char :: "char \<Rightarrow> char" where
  "to_lower_char c =
     (case map_of (zip ''ABCDEFGHIJKLMNOPQRSTUVWXYZ'' ''abcdefghijklmnopqrstuvwxyz'') c of
        Some l \<Rightarrow> l
      | None \<Rightarrow> c)"

definition toLowerCase :: "string \<Rightarrow> string" where
  "toLowerCase s = map to_lower_char s"

text \<open>\<^verbatim>\<open>s.replace(/\\/g, "/")\<close>: every backslash becomes a slash.\<close>

definition replace_bslash :: "string \<Rightarrow> string" where
  "replace_bslash s = map (\<lambda>c. if c = bslash then CHR ''/'' else c) s"

text \<open>\<^verbatim>\<open>s.replace(/\\\\/g, "/")\<close>: every pair of backslashes, scanned left to right,
  becomes one slash.\<close>

fun replace_bslash_pairs :: "string \<Rightarrow> string" where
  "replace_bslash_pairs (a # b # cs) =
     (if a = bslash \<and> b = bslash then CHR ''/'' # replace_bslash_pairs cs
      else a # replace_bslash_pairs (b # cs))"
| "replace_bslash_pairs cs = cs"

text \<open>The character classes \<^verbatim>\<open>\d\<close>, \<^verbatim>\<open>[a-z0-9-]\<close> and \<^verbatim>\<open>\s\<close> (its ASCII members:
  tab, line feed, vertical tab, form feed, carriage return, space).\<close>

definition is_digit :: "char \<Rightarrow> bool" where
  "is_digit c = (c \<in> set ''0123456789'')"

definition is_slug_char :: "char \<Rightarrow> bool" where
  "is_slug_char c = (c \<in> set ''abcdefghijklmnopqrstuvwxyz0123456789-'')"

definition is_space :: "char \<Rightarrow> bool" where
  "is_space c = (c \<in> {CHR 0x09, CHR 0x0A, CHR 0x0B, CHR 0x0C, CHR 0x0D, CHR 0x20})"

definition digit_val :: "char \<Rightarrow> int" where
  "digit_val c = (case map_of (zip ''0123456789'' [0, 1, 2, 3, 4, 5, 6, 7, 8, 9]) c of
                    Some d \<Rightarrow> d
                  | None \<Rightarrow> 0)"

text \<open>\<^verbatim>\<open>parseInt(ds, 10)\<close> on a string of decimal digits.\<close>

definition parseInt :: "string \<Rightarrow> int" where
  "parseInt ds = foldl (\<lambda>n c. 10 * n + digit_val c) 0 ds"

text \<open>Number-to-string conversion of an integer, as string concatenation performs it.\<close>

fun show_nat :: "nat \<Rightarrow> string" where
  "show_nat n =
     (if n < 10 then [''0123456789'' ! n]
      else show_nat (n div 10) @ [''0123456789'' ! (n mod 10)])"

declare show_nat.simps [simp del]

definition show_int :: "int \<Rightarrow> string" where
  "show_int i = (if i < 0 then CHR ''-'' # show_nat (nat (- i)) else show_nat (nat i))"

text \<open>\<^verbatim>\<open>x || d\<close> on an optional string and on an optional number.\<close>

definition truthy_str :: "string option \<Rightarrow> string option" where
  "truthy_str x = (case x of Some s \<Rightarrow> (if s = [] then None else Some s) | None \<Rightarrow> None)"

definition truthy_num :: "int option \<Rightarrow> int option" where
  "truthy_num x = (case x of Some n \<Rightarrow> (if n = 0 then None else Some n) | None \<Rightarrow> None)"

definition or_str :: "string option \<Rightarrow> string \<Rightarrow> string" where
  "or_str x d = (case truthy_str x of Some s \<Rightarrow> s | None \<Rightarrow> d)"

definition or_num :: "int option \<Rightarrow> int \<Rightarrow> int" where
  "or_num x d = (case truthy_num x of Some n \<Rightarrow> n | None \<Rightarrow> d)"

subsection \<open>Path router\<close>

record routing =
  r_project_slug :: "string option"
  r_team_port :: "int option"

text \<open>
  The regular expression \<^verbatim>\<open>/([a-z0-9-]+)-(\d{4,5})/\<close>, run the way a backtracking
  matcher runs it. After group 1 the rest of the input must be a hyphen and at least
  four digits; the greedy \<^verbatim>\<open>\d{4,5}\<close> takes five when five are there.
\<close>

definition port_digits :: "string \<Rightarrow> string option" where
  "port_digits rest =
     (case rest of
        [] \<Rightarrow> None
      | c # ds \<Rightarrow>
          (if c = CHR ''-'' \<and> 4 \<le> length (takeWhile is_digit ds)
           then Some (take 5 (takeWhile is_digit ds)) else None))"

text \<open>Group 1 is greedy: its longest length is tried first, then one character less,
  down to a single character.\<close>

primrec port_backtrack :: "string \<Rightarrow> nat \<Rightarrow> (string \<times> string) option" where
  "port_backtrack s 0 = None"
| "port_backtrack s (Suc k) =
     (case port_digits (drop (Suc k) s) of
        Some g2 \<Rightarrow> Some (take (Suc k) s, g2)
      | None \<Rightarrow> port_backtrack s k)"

definition port_match_at :: "string \<Rightarrow> (string \<times> string) option" where
  "port_match_at s = port_backtrack s (length (takeWhile is_slug_char s))"

text \<open>An unanchored match: the leftmost start position that matches wins.\<close>

fun port_match :: "string \<Rightarrow> (string \<times> string) option" where
  "port_match [] = None"
| "port_match (c # cs) =
     (case port_match_at (c # cs) of
        Some m \<Rightarrow> Some m
      | None \<Rightarrow> port_match cs)"

text \<open>\<^verbatim>\<open>/studio\/([^\/]+)/\<close> and \<^verbatim>\<open>/projects\/([^\/]+)/\<close>: the leftmost occurrence of the
  prefix that is followed by at least one character other than a slash; the group is the
  run of such characters.\<close>

fun segment_match :: "string \<Rightarrow> string \<Rightarrow> string option" where
  "segment_match p [] = None"
| "segment_match p (c # cs) =
     (if starts_with p (c # cs) \<and> takeWhile (\<lambda>x. x \<noteq> CHR ''/'') (drop (length p) (c # cs)) \<noteq> []
      then Some (takeWhile (\<lambda>x. x \<noteq> CHR ''/'') (drop (length p) (c # cs)))
      else segment_match p cs)"

definition no_routing :: routing where
  "no_routing = \<lparr>r_project_slug = None, r_team_port = None\<rparr>"

definition routing_fallback :: "string \<Rightarrow> routing" where
  "routing_fallback normalized =
     (case segment_match ''studio/'' normalized of
        Some name \<Rightarrow> \<lparr>r_project_slug = Some name, r_team_port = None\<rparr>
      | None \<Rightarrow>
          (case segment_match ''projects/'' normalized of
             Some name \<Rightarrow> \<lparr>r_project_slug = Some name, r_team_port = None\<rparr>
           | None \<Rightarrow> no_routing))"

definition parseRoutingFromCwd :: "string option \<Rightarrow> routing" where
  "parseRoutingFromCwd cwd =
     (case truthy_str cwd of
        None \<Rightarrow> no_routing
      | Some p \<Rightarrow>
          (let normalized = toLowerCase (replace_bslash p) in
           case port_match normalized of
             Some (g1, g2) \<Rightarrow>
               (if 4000 \<le> parseInt g2 \<and> parseInt g2 \<le> 9999
                then \<lparr>r_project_slug = Some (g1 @ ''-'' @ g2), r_team_port = Some (parseInt g2)\<rparr>
                else routing_fallback normalized)
           | None \<Rightarrow> routing_fallback normalized))"

text \<open>The fifth disjunct of the source is the anchored test
  \<^verbatim>\<open>/^[a-z]:\\users\\/i\<close> on the lowercased path.\<close>

definition drive_users :: "string \<Rightarrow> bool" where
  "drive_users c =
     (case c of
        [] \<Rightarrow> False
      | d # rest \<Rightarrow>
          d \<in> set ''abcdefghijklmnopqrstuvwxyzABCDEFGHIJKLMNOPQRSTUVWXYZ''
          \<and> starts_with (CHR '':'' # bslash # ''users'' @ [bslash]) (map to_lower_char rest))"

definition isHomePath :: "string option \<Rightarrow> bool" where
  "isHomePath p =
     (case truthy_str p of
        None \<Rightarrow> False
      | Some s \<Rightarrow>
          (let c = toLowerCase s in
           str_includes c ''/home/'' \<or> str_includes c ''/root/'' \<or> ends_with c ''/root''
           \<or> str_includes c (bslash # ''users'' @ [bslash]) \<or> drive_users c))"

subsection \<open>Cwd extractor\<close>

text \<open>
  The regular expression \<^verbatim>\<open>/"cwd"\s*:\s*"([^"]+)"/\<close> tried at the start of the input;
  the result is group 1 and the input left after the match. Nothing can be gained by
  backtracking here: a colon and a quote are no white space, and the group cannot hold a quote.
\<close>

definition cwd_match_at :: "string \<Rightarrow> (string \<times> string) option" where
  "cwd_match_at s =
     (if starts_with (dquote # ''cwd'' @ [dquote]) s then
        (case dropWhile is_space (drop 5 s) of
           [] \<Rightarrow> None
         | c # r1 \<Rightarrow>
             (if c = CHR '':'' then
                (case dropWhile is_space r1 of
                   [] \<Rightarrow> None
                 | q # r2 \<Rightarrow>
                     (if q = dquote \<and> takeWhile (\<lambda>x. x \<noteq> dquote) r2 \<noteq> []
                         \<and> dropWhile (\<lambda>x. x \<noteq> dquote) r2 \<noteq> []
                      then Some (takeWhile (\<lambda>x. x \<noteq> dquote) r2,
                                 tl (dropWhile (\<lambda>x. x \<noteq> dquote) r2))
                      else None))
              else None))
      else None)"

text \<open>The matches of the global flag: scanning resumes after the end of each match.
  Each match is represented by its group 1, which is what the second, non-global
  \<^verbatim>\<open>match\<close> of the source reads off the matched text.\<close>

function cwd_matches :: "string \<Rightarrow> string list" where
  "cwd_matches [] = []"
| "cwd_matches (c # cs) =
     (case cwd_match_at (c # cs) of
        Some (v, rest) \<Rightarrow> v # cwd_matches rest
      | None \<Rightarrow> cwd_matches cs)"
  by pat_completeness auto
termination
proof (relation "measure length")
  show "wf (measure length)"
    by simp
next
  fix c :: char and cs :: string and x :: "string \<times> string" and v rest :: string
  assume m: "cwd_match_at (c # cs) = Some x" and x: "(v, rest) = x"
  have d: "length (dropWhile P xs) \<le> length xs" for P :: "char \<Rightarrow> bool" and xs
    by (rule length_dropWhile_le)
  from m x obtain a r1 q r2 where
    a: "dropWhile is_space (drop 5 (c # cs)) = a # r1" and
    b: "dropWhile is_space r1 = q # r2" and
    r: "rest = tl (dropWhile (\<lambda>y. y \<noteq> dquote) r2)"
    by (auto simp: cwd_match_at_def split: if_splits list.splits)
  have "length rest \<le> length r2"
    using r d [of "\<lambda>y. y \<noteq> dquote" r2] by simp
  also have "length r2 < length r1"
    using b d [of is_space r1] by simp
  also have "length r1 < length (c # cs)"
    using a d [of is_space "drop 5 (c # cs)"] by simp
  finally show "(rest, c # cs) \<in> measure length"
    by simp
next
  fix c :: char and cs :: string
  show "(cs, c # cs) \<in> measure length"
    by simp
qed

definition extractCwdFromContent :: "string \<Rightarrow> string option" where
  "extractCwdFromContent content =
     (if content = [] then None
      else (case cwd_matches content of
              [] \<Rightarrow> None
            | m # ms \<Rightarrow> Some (replace_bslash (replace_bslash_pairs (last (m # ms))))))"

subsection \<open>Records, windows and the window aggregator\<close>

text \<open>
  A row of \<^verbatim>\<open>dev_transcripts_raw\<close> (fields prefixed \<open>t_\<close>, after the loop variable of
  the source). Timestamps are the milliseconds \<^verbatim>\<open>new Date(..).getTime()\<close> yields for a
  well-formed date; \<open>t_received_at\<close> is read only when \<open>t_original_timestamp\<close> is absent.
\<close>

record rawrecord =
  t_id :: int
  t_source_type :: "string option"
  t_session_file :: "string option"
  t_project_folder :: "string option"
  t_project_slug :: "string option"
  t_team_port :: "int option"
  t_content :: "string option"
  t_original_timestamp :: "int option"
  t_received_at :: int
  t_processed :: bool

record session_window =
  w_windowStart :: int
  w_source_type :: string
  w_session_file :: string
  w_project_folder :: "string option"
  w_project_slug :: "string option"
  w_team_port :: "int option"
  w_transcripts :: "rawrecord list"
  w_content :: string
  w_earliest_ts :: int
  w_latest_ts :: int

definition TIME_WINDOW_MS :: int where
  "TIME_WINDOW_MS = 30 * 60 * 1000"

definition record_ts :: "rawrecord \<Rightarrow> int" where
  "record_ts t = (case t_original_timestamp t of Some ts \<Rightarrow> ts | None \<Rightarrow> t_received_at t)"

text \<open>\<^verbatim>\<open>Math.floor(ts / TIME_WINDOW_MS) * TIME_WINDOW_MS\<close>; \<open>div\<close> on \<^typ>\<open>int\<close> rounds
  towards minus infinity, as \<^verbatim>\<open>Math.floor\<close> does.\<close>

definition window_start :: "int \<Rightarrow> int" where
  "window_start ts = (ts div TIME_WINDOW_MS) * TIME_WINDOW_MS"

definition sourceType :: "rawrecord \<Rightarrow> string" where
  "sourceType t = or_str (t_source_type t) ''transcript''"

definition sourceName :: "rawrecord \<Rightarrow> string" where
  "sourceName t = or_str (t_session_file t) ''unknown''"

definition teamPort :: "rawrecord \<Rightarrow> int" where
  "teamPort t = or_num (t_team_port t) 0"

definition record_key :: "rawrecord \<Rightarrow> string" where
  "record_key t =
     sourceType t @ '':'' @ sourceName t @ '':'' @ show_int (teamPort t) @ '':''
       @ show_int (window_start (record_ts t))"

text \<open>\<^verbatim>\<open>t.content + '\n'\<close>: a \<^verbatim>\<open>null\<close> content is concatenated as the text \<^verbatim>\<open>null\<close>.\<close>

definition content_line :: "rawrecord \<Rightarrow> string" where
  "content_line t = (case t_content t of Some c \<Rightarrow> c | None \<Rightarrow> ''null'') @ [CHR 0x0A]"

definition new_window :: "rawrecord \<Rightarrow> session_window" where
  "new_window t =
     \<lparr>w_windowStart = window_start (record_ts t),
      w_source_type = sourceType t,
      w_session_file = sourceName t,
      w_project_folder = truthy_str (t_project_folder t),
      w_project_slug = truthy_str (t_project_slug t),
      w_team_port = truthy_num (t_team_port t),
      w_transcripts = [],
      w_content = [],
      w_earliest_ts = record_ts t,
      w_latest_ts = record_ts t\<rparr>"

definition push_record :: "rawrecord \<Rightarrow> session_window \<Rightarrow> session_window" where
  "push_record t w =
     w\<lparr>w_transcripts := w_transcripts w @ [t],
       w_content := w_content w @ content_line t,
       w_earliest_ts := min (w_earliest_ts w) (record_ts t),
       w_latest_ts := max (w_latest_ts w) (record_ts t)\<rparr>"

text \<open>
  The object \<^verbatim>\<open>windows\<close> is an association list in insertion order, the order
  \<^verbatim>\<open>Object.values\<close> returns for keys that are not array indices (every key holds colons).
  One iteration of the loop body:
\<close>

definition add_record :: "rawrecord \<Rightarrow> (string \<times> session_window) list \<Rightarrow> (string \<times> session_window) list" where
  "add_record t windows =
     (let key = record_key t;
          windows1 = (if map_of windows key = None then windows @ [(key, new_window t)]
                      else windows)
      in map (\<lambda>(k, w). if k = key then (k, push_record t w) else (k, w)) windows1)"

definition windows_of :: "rawrecord list \<Rightarrow> (string \<times> session_window) list" where
  "windows_of transcripts = foldl (\<lambda>windows t. add_record t windows) [] transcripts"

definition groupByTimeWindow :: "rawrecord list \<Rightarrow> session_window list" where
  "groupByTimeWindow transcripts = map snd (windows_of transcripts)"

subsection \<open>Slug normalizer, content sniffer and identity resolver\<close>

definition LOW_TRUST_SLUGS :: "string list" where
  "LOW_TRUST_SLUGS = [''ai-team'', ''terminal'', ''unassigned'', ''unknown'', ''default'', ''studio'', ''www'']"

definition SLUG_PORT_MAP :: "(string \<times> string) list" where
  "SLUG_PORT_MAP =
     [(''ai-chad'', ''ai-chad-5401''),
      (''ai-jen'', ''ai-jen-5402''),
      (''ai-susan'', ''ai-susan-5403''),
      (''ai-clair'', ''ai-clair-5404''),
      (''ai-jason'', ''ai-jason-5408''),
      (''ai-mike'', ''ai-mike-5405''),
      (''ai-tiffany'', ''ai-tiffany-5406''),
      (''ai-ryan'', ''ai-ryan-5407''),
      (''kodiack-dashboard'', ''kodiack-dashboard-5500''),
      (''terminal-server'', ''terminal-server-5400'')]"

text \<open>The lookup reads the table's own entries; a slug that names a member every
  JavaScript object inherits (such as \<^verbatim>\<open>constructor\<close>) is outside the model.\<close>

definition normalizeSlug :: "string \<Rightarrow> string" where
  "normalizeSlug slug =
     (if slug = [] then slug
      else (case map_of SLUG_PORT_MAP slug of Some full \<Rightarrow> full | None \<Rightarrow> slug))"

record identity =
  slug :: string
  reason :: string
  port :: "int option"

definition patterns :: "(string \<times> string) list" where
  "patterns =
     [(''kodiack-dashboard'', ''kodiack-dashboard-5500''),
      (''dashboard-5500'', ''kodiack-dashboard-5500''),
      (''ai-jen'', ''ai-jen-5402''),
      (''ai-susan'', ''ai-susan-5403''),
      (''ai-chad'', ''ai-chad-5401''),
      (''ai-jason'', ''ai-jason-5408''),
      (''terminal-server'', ''terminal-server-5400''),
      (''nextbid'', ''nextbid''),
      (''kodiack-studio'', ''kodiack-studio'')]"

definition haystack :: "session_window \<Rightarrow> string" where
  "haystack win =
     toLowerCase (w_session_file win @ '' '' @ or_str (w_project_folder win) [] @ '' ''
                    @ take 5000 (w_content win))"

text \<open>The loop over \<^verbatim>\<open>patterns\<close>: the first entry whose \<^verbatim>\<open>match\<close> the haystack includes.\<close>

fun first_pattern :: "string \<Rightarrow> (string \<times> string) list \<Rightarrow> (string \<times> string) option" where
  "first_pattern hay [] = None"
| "first_pattern hay (pat # pats) =
     (if str_includes hay (fst pat) then Some pat else first_pattern hay pats)"

definition trusted_slug :: "session_window \<Rightarrow> string option" where
  "trusted_slug win =
     (case truthy_str (w_project_slug win) of
        Some s \<Rightarrow> (if s \<in> set LOW_TRUST_SLUGS then None else Some s)
      | None \<Rightarrow> None)"

text \<open>The second step of the resolver: the slug and port of the routing of a cwd that
  is present and no home path, when that routing has a slug.\<close>

definition cwd_routing :: "string option \<Rightarrow> (string \<times> int option) option" where
  "cwd_routing cwd =
     (if truthy_str cwd \<noteq> None \<and> \<not> isHomePath cwd
      then (case truthy_str (r_project_slug (parseRoutingFromCwd cwd)) of
              Some s \<Rightarrow> Some (s, r_team_port (parseRoutingFromCwd cwd))
            | None \<Rightarrow> None)
      else None)"

definition resolveProjectSlug :: "session_window \<Rightarrow> string option \<Rightarrow> identity" where
  "resolveProjectSlug win cwd =
     (case trusted_slug win of
        Some s \<Rightarrow> \<lparr>slug = normalizeSlug s, reason = ''transcript'', port = w_team_port win\<rparr>
      | None \<Rightarrow>
          (case cwd_routing cwd of
             Some routing \<Rightarrow> \<lparr>slug = fst routing, reason = ''cwd'', port = snd routing\<rparr>
           | None \<Rightarrow>
               (case first_pattern (haystack win) patterns of
                  Some pat \<Rightarrow> \<lparr>slug = snd pat, reason = ''content:'' @ fst pat, port = None\<rparr>
                | None \<Rightarrow> \<lparr>slug = ''unassigned'', reason = ''no_match'', port = None\<rparr>)))"

subsection \<open>The processing pass\<close>

text \<open>A row of \<^verbatim>\<open>dev_ai_sessions\<close> (fields prefixed \<open>s_\<close>); \<open>s_started_at\<close> is the
  instant whose ISO text the source stores.\<close>

record ai_session =
  s_project_id :: "string option"
  s_project_uuid :: "string option"
  s_project_slug :: string
  s_team_port :: "int option"
  s_source_type :: string
  s_source_name :: string
  s_status :: string
  s_raw_content :: string
  s_message_count :: nat
  s_started_at :: int

record store =
  raw_rows :: "rawrecord list"
  session_rows :: "ai_session list"

text \<open>
  Modelled from the spec: the record store behind \<^verbatim>\<open>./lib/db\<close>, which is not among the
  sources. Its calls answer with a result and an error and raise nothing, as the source
  reads them (\<^verbatim>\<open>const { data, error } = await ...\<close>). \<open>project_id\<close> is the id a lookup
  in \<^verbatim>\<open>dev_projects\<close> by slug yields (\<^term>\<open>None\<close> on an error or a missing row);
  \<open>insert_error\<close> is the error an insert into \<^verbatim>\<open>dev_ai_sessions\<close> meets in a given store,
  \<^term>\<open>None\<close> for success, otherwise the error's optional message. A successful insert
  appends the row; an update by id sets the field on every row with that id.
\<close>

record db =
  project_id :: "string \<Rightarrow> string option"
  insert_error :: "ai_session \<Rightarrow> store \<Rightarrow> string option option"

definition update_processed :: "int \<Rightarrow> store \<Rightarrow> store" where
  "update_processed i st =
     st\<lparr>raw_rows := map (\<lambda>r. if t_id r = i then r\<lparr>t_processed := True\<rparr> else r) (raw_rows st)\<rparr>"

fun markTranscriptsProcessed :: "int list \<Rightarrow> store \<Rightarrow> store" where
  "markTranscriptsProcessed [] st = st"
| "markTranscriptsProcessed (i # ids) st = markTranscriptsProcessed ids (update_processed i st)"

definition finalPort :: "identity \<Rightarrow> session_window \<Rightarrow> int option" where
  "finalPort resolved win =
     (case truthy_num (port resolved) of Some p \<Rightarrow> Some p | None \<Rightarrow> w_team_port win)"

definition resolvedProjectUuid :: "db \<Rightarrow> string \<Rightarrow> string option" where
  "resolvedProjectUuid d finalSlug =
     (case truthy_str (project_id d finalSlug) of
        Some u \<Rightarrow> Some u
      | None \<Rightarrow> truthy_str (project_id d ''unassigned''))"

definition messageCount :: "string \<Rightarrow> nat" where
  "messageCount content = length (filter (\<lambda>c. c = CHR 0x0A) content) + 1"

definition session_row :: "db \<Rightarrow> session_window \<Rightarrow> ai_session" where
  "session_row d win =
     (let content = w_content win;
          resolved = resolveProjectSlug win (extractCwdFromContent content);
          finalSlug = slug resolved
      in \<lparr>s_project_id = resolvedProjectUuid d finalSlug,
          s_project_uuid = resolvedProjectUuid d finalSlug,
          s_project_slug = finalSlug,
          s_team_port = finalPort resolved win,
          s_source_type = (if w_source_type win = [] then ''transcript'' else w_source_type win),
          s_source_name = w_session_file win,
          s_status = ''active'',
          s_raw_content = content,
          s_message_count = messageCount content,
          s_started_at = w_windowStart win\<rparr>)"

record pass_state =
  sessionsCreated :: nat
  transcriptsProcessed :: nat
  errors :: nat
  pstore :: store

text \<open>What the pass does once a window is consumed: mark its records and count them.\<close>

definition mark_window :: "session_window \<Rightarrow> pass_state \<Rightarrow> pass_state" where
  "mark_window win s =
     s\<lparr>pstore := markTranscriptsProcessed (map t_id (w_transcripts win)) (pstore s),
       transcriptsProcessed := transcriptsProcessed s + length (w_transcripts win)\<rparr>"

definition is_duplicate_key :: "string option \<Rightarrow> bool" where
  "is_duplicate_key message =
     (case truthy_str message of Some m \<Rightarrow> str_includes m ''duplicate key'' | None \<Rightarrow> False)"

text \<open>The body of the loop over the windows. Logging has no effect on the result and is
  left out, and with it \<^verbatim>\<open>extractProject\<close>, which only feeds a log line.\<close>

definition process_window :: "db \<Rightarrow> session_window \<Rightarrow> pass_state \<Rightarrow> pass_state" where
  "process_window d win s =
     (if length (w_content win) < 100 then mark_window win s
      else
        (case insert_error d (session_row d win) (pstore s) of
           None \<Rightarrow>
             (let s1 = s\<lparr>pstore := (pstore s)\<lparr>session_rows :=
                         session_rows (pstore s) @ [session_row d win]\<rparr>\<rparr>;
                  s2 = mark_window win s1
              in s2\<lparr>sessionsCreated := sessionsCreated s2 + 1\<rparr>)
         | Some message \<Rightarrow>
             (if is_duplicate_key message
              then (let s2 = mark_window win s in s2\<lparr>sessionsCreated := sessionsCreated s2 + 1\<rparr>)
              else s\<lparr>errors := errors s + 1\<rparr>)))"

text \<open>The loop over the windows, from the counters at zero.\<close>

definition initial_state :: "store \<Rightarrow> pass_state" where
  "initial_state st = \<lparr>sessionsCreated = 0, transcriptsProcessed = 0, errors = 0, pstore = st\<rparr>"

definition run_windows :: "db \<Rightarrow> pass_state \<Rightarrow> session_window list \<Rightarrow> pass_state" where
  "run_windows d s windows = foldl (\<lambda>s win. process_window d win s) s windows"

text \<open>The answer of the fetch: an error, or the rows (possibly \<^verbatim>\<open>null\<close>).\<close>

datatype fetch_result = FetchError | FetchData "rawrecord list option"

record summary =
  sum_processed :: nat
  sum_sessions :: "nat option"
  sum_errors :: nat

definition processTranscripts :: "db \<Rightarrow> fetch_result \<Rightarrow> store \<Rightarrow> summary \<times> store" where
  "processTranscripts d fetched st =
     (case fetched of
        FetchError \<Rightarrow> (\<lparr>sum_processed = 0, sum_sessions = None, sum_errors = 1\<rparr>, st)
      | FetchData None \<Rightarrow> (\<lparr>sum_processed = 0, sum_sessions = Some 0, sum_errors = 0\<rparr>, st)
      | FetchData (Some transcripts) \<Rightarrow>
          (if transcripts = []
           then (\<lparr>sum_processed = 0, sum_sessions = Some 0, sum_errors = 0\<rparr>, st)
           else
             (let final = run_windows d (initial_state st) (groupByTimeWindow transcripts)
              in (\<lparr>sum_processed = transcriptsProcessed final,
                   sum_sessions = Some (sessionsCreated final),
                   sum_errors = errors final\<rparr>, pstore final))))"

subsection \<open>Notions used to state the properties\<close>

text \<open>The home-path predicate in the words of the specification: the path contains,
  case-insensitively, \<^verbatim>\<open>/home/\<close> or \<^verbatim>\<open>/root/\<close>, ends with \<^verbatim>\<open>/root\<close>, or contains a
  \<^verbatim>\<open>\Users\\<close> segment.\<close>

definition home_path_spec :: "string \<Rightarrow> bool" where
  "home_path_spec p =
     (str_includes (toLowerCase p) ''/home/'' \<or> str_includes (toLowerCase p) ''/root/''
      \<or> ends_with (toLowerCase p) ''/root''
      \<or> str_includes (toLowerCase p) (bslash # ''users'' @ [bslash]))"

text \<open>The window the loop builds from the records \<open>m # ms\<close> that share a key, in
  iteration order: created from \<open>m\<close>, then every record pushed.\<close>

definition window_from :: "rawrecord \<Rightarrow> rawrecord list \<Rightarrow> session_window" where
  "window_from m ms = foldl (\<lambda>w t. push_record t w) (new_window m) (m # ms)"

text \<open>The raw table after the rows whose id is in \<open>ids\<close> have been marked processed.\<close>

definition mark_rows :: "int set \<Rightarrow> rawrecord list \<Rightarrow> rawrecord list" where
  "mark_rows ids rows = map (\<lambda>r. if t_id r \<in> ids then r\<lparr>t_processed := True\<rparr> else r) rows"

subsection \<open>Concrete records, windows and stores\<close>

text \<open>Two records of one window that carry different slugs and folders.\<close>

definition rec_a :: rawrecord where
  "rec_a = \<lparr>t_id = 1, t_source_type = Some ''transcript'', t_session_file = Some ''chat.jsonl'',
            t_project_folder = None, t_project_slug = Some ''nextbid'', t_team_port = None,
            t_content = Some ''hello'', t_original_timestamp = Some 3600123,
            t_received_at = 0, t_processed = False\<rparr>"

definition rec_b :: rawrecord where
  "rec_b = \<lparr>t_id = 2, t_source_type = None, t_session_file = Some ''chat.jsonl'',
            t_project_folder = Some ''/srv/studio'', t_project_slug = Some ''kodiack-studio'',
            t_team_port = Some 0, t_content = None, t_original_timestamp = None,
            t_received_at = 3600456, t_processed = False\<rparr>"

definition key_ab :: string where
  "key_ab = ''transcript:chat.jsonl:0:3600000''"

definition window_ab :: session_window where
  "window_ab = \<lparr>w_windowStart = 3600000, w_source_type = ''transcript'',
      w_session_file = ''chat.jsonl'', w_project_folder = None,
      w_project_slug = Some ''nextbid'', w_team_port = None,
      w_transcripts = [rec_a, rec_b], w_content = ''hello'' @ [CHR 0x0A] @ ''null'' @ [CHR 0x0A],
      w_earliest_ts = 3600123, w_latest_ts = 3600456\<rparr>"

definition window_ba :: session_window where
  "window_ba = \<lparr>w_windowStart = 3600000, w_source_type = ''transcript'',
      w_session_file = ''chat.jsonl'', w_project_folder = Some ''/srv/studio'',
      w_project_slug = Some ''kodiack-studio'', w_team_port = None,
      w_transcripts = [rec_b, rec_a], w_content = ''null'' @ [CHR 0x0A] @ ''hello'' @ [CHR 0x0A],
      w_earliest_ts = 3600123, w_latest_ts = 3600456\<rparr>"

text \<open>Two records that differ in source type and session file and whose keys are the
  same text.\<close>

definition rec_c :: rawrecord where
  "rec_c = \<lparr>t_id = 3, t_source_type = Some ''transcript:a'', t_session_file = Some ''b'',
            t_project_folder = None, t_project_slug = None, t_team_port = None,
            t_content = Some ''one'', t_original_timestamp = Some 3600123,
            t_received_at = 0, t_processed = False\<rparr>"

definition rec_d :: rawrecord where
  "rec_d = \<lparr>t_id = 4, t_source_type = Some ''transcript'', t_session_file = Some ''a:b'',
            t_project_folder = None, t_project_slug = None, t_team_port = None,
            t_content = Some ''two'', t_original_timestamp = Some 3600456,
            t_received_at = 0, t_processed = False\<rparr>"

definition window_cd :: session_window where
  "window_cd = \<lparr>w_windowStart = 3600000, w_source_type = ''transcript:a'',
      w_session_file = ''b'', w_project_folder = None,
      w_project_slug = None, w_team_port = None,
      w_transcripts = [rec_c, rec_d], w_content = ''one'' @ [CHR 0x0A] @ ''two'' @ [CHR 0x0A],
      w_earliest_ts = 3600123, w_latest_ts = 3600456\<rparr>"

text \<open>A record whose content alone fills a window past the length filter.\<close>

definition rec_long :: rawrecord where
  "rec_long = \<lparr>t_id = 5, t_source_type = Some ''transcript'', t_session_file = Some ''long.jsonl'',
            t_project_folder = None, t_project_slug = None, t_team_port = None,
            t_content = Some (replicate 100 (CHR ''x'')), t_original_timestamp = Some 3600123,
            t_received_at = 0, t_processed = False\<rparr>"

definition window_long :: session_window where
  "window_long = \<lparr>w_windowStart = 3600000, w_source_type = ''transcript'',
      w_session_file = ''long.jsonl'', w_project_folder = None,
      w_project_slug = None, w_team_port = None,
      w_transcripts = [rec_long], w_content = replicate 100 (CHR ''x'') @ [CHR 0x0A],
      w_earliest_ts = 3600123, w_latest_ts = 3600123\<rparr>"

definition store0 :: store where
  "store0 = \<lparr>raw_rows = [rec_a, rec_b, rec_long], session_rows = []\<rparr>"

definition start_state :: pass_state where
  "start_state = initial_state store0"

definition duplicate_db :: db where
  "duplicate_db = \<lparr>project_id = (\<lambda>s. None),
      insert_error = (\<lambda>row st. Some (Some ''duplicate key value violates unique constraint''))\<rparr>"

definition failing_db :: db where
  "failing_db = \<lparr>project_id = (\<lambda>s. None),
      insert_error = (\<lambda>row st. Some (Some ''connection terminated''))\<rparr>"

text \<open>The scenario of the specification: a low-trust slug and a cwd under a home
  directory.\<close>

definition bob_cwd :: string where
  "bob_cwd = ''/home/bob/project-5401/x''"

definition bob_window :: session_window where
  "bob_window = \<lparr>w_windowStart = 3600000, w_source_type = ''transcript'',
      w_session_file = ''chat.jsonl'', w_project_folder = None,
      w_project_slug = Some ''ai-team'', w_team_port = None,
      w_transcripts = [],
      w_content = dquote # ''cwd'' @ [dquote] @ '':'' @ [dquote] @ bob_cwd @ [dquote, CHR 0x0A],
      w_earliest_ts = 3600123, w_latest_ts = 3600123\<rparr>"

definition jen_window :: session_window where
  "jen_window = bob_window\<lparr>w_project_slug := Some ''ai-jen'', w_team_port := Some 5402\<rparr>"

definition plain_window :: session_window where
  "plain_window = bob_window\<lparr>w_project_slug := None, w_content := ''hello''\<rparr>"

definition nextbid_window :: session_window where
  "nextbid_window = bob_window\<lparr>w_project_slug := None, w_content := ''NextBid portal''\<rparr>"

text \<open>Contents that carry a cwd: one outside any home directory, and one under a
  Windows user directory, with the backslashes doubled as JSON text has them.\<close>

definition chad_content :: string where
  "chad_content = dquote # ''cwd'' @ [dquote] @ '': '' @ [dquote] @ ''/srv/ai-chad-5401/work''
                    @ [dquote, CHR 0x0A]"

definition users_content :: string where
  "users_content = dquote # ''cwd'' @ [dquote] @ '':'' @ [dquote] @ ''C:'' @ [bslash, bslash]
                     @ ''Users'' @ [bslash, bslash] @ ''bob'' @ [bslash, bslash] @ ''proj-5401''
                     @ [dquote, CHR 0x0A]"

section \<open>Properties\<close>

lemmas string_eval = toLowerCase_def to_lower_char_def bslash_def dquote_def replace_bslash_def
  is_digit_def is_slug_char_def is_space_def digit_val_def parseInt_def ends_with_def

lemmas route_eval = parseRoutingFromCwd_def port_match_at_def port_digits_def
  routing_fallback_def no_routing_def isHomePath_def drive_users_def cwd_routing_def truthy_str_def

lemmas resolve_eval = resolveProjectSlug_def trusted_slug_def LOW_TRUST_SLUGS_def haystack_def
  patterns_def normalizeSlug_def SLUG_PORT_MAP_def or_str_def

lemmas key_eval = record_key_def sourceType_def sourceName_def teamPort_def or_str_def or_num_def
  truthy_str_def truthy_num_def show_int_def show_nat.simps window_start_def TIME_WINDOW_MS_def
  record_ts_def

lemmas group_eval = groupByTimeWindow_def windows_of_def add_record_def new_window_def
  push_record_def content_line_def

subsection \<open>Identity resolver: trust, home paths and reasons\<close>

lemma home_path_spec_isHomePath: "home_path_spec p \<Longrightarrow> isHomePath (Some p)"
proof -
  assume h: "home_path_spec p"
  have "p \<noteq> []"
    using h by (auto simp: home_path_spec_def toLowerCase_def ends_with_def)
  then show ?thesis
    using h by (auto simp: home_path_spec_def isHomePath_def truthy_str_def Let_def)
qed

lemma cwd_routing_home: "isHomePath cwd \<Longrightarrow> cwd_routing cwd = None"
  by (simp add: cwd_routing_def)

lemma cwd_routing_None: "cwd_routing None = None"
  by (simp add: cwd_routing_def truthy_str_def)

lemma first_pattern_None:
  "first_pattern hay pats = None \<longleftrightarrow> (\<forall>pat \<in> set pats. \<not> str_includes hay (fst pat))"
  by (induction pats) auto

lemma first_pattern_Some:
  "first_pattern hay pats = Some pat \<Longrightarrow> pat \<in> set pats \<and> str_includes hay (fst pat)"
  by (induction pats) (auto split: if_splits)

lemma bob_haystack_no_pattern:
  "\<forall>pat \<in> set patterns. \<not> str_includes (haystack bob_window) (fst pat)"
  by (simp add: resolve_eval string_eval bob_window_def bob_cwd_def truthy_str_def)

lemma bob_cwd_is_home: "isHomePath (Some bob_cwd)"
  by (simp add: route_eval string_eval bob_cwd_def)

lemma bob_cwd_would_route:
  "parseRoutingFromCwd (Some bob_cwd)
     = \<lparr>r_project_slug = Some ''project-5401'', r_team_port = Some 5401\<rparr>"
  by (simp add: route_eval string_eval bob_cwd_def)

lemma bob_extract: "extractCwdFromContent (w_content bob_window) = Some bob_cwd"
  by (simp add: extractCwdFromContent_def cwd_match_at_def bob_window_def bob_cwd_def string_eval)

text \<open>
  C1. When the slug a window carries is in the low-trust set, the resolver does not take
  the trusted branch (the reason is never \<^verbatim>\<open>transcript\<close>), and its answer is the one it
  gives for the same window without a slug. If moreover the cwd gives no routing (it is
  absent, a home path, or routes to no slug) and the haystack includes none of the
  patterns, the answer is the slug \<^verbatim>\<open>unassigned\<close> with no port.
\<close>

theorem low_trust_slug_never_trusted:
  assumes "w_project_slug win = Some s" and "s \<in> set LOW_TRUST_SLUGS"
  shows "reason (resolveProjectSlug win cwd) \<noteq> ''transcript''
       \<and> resolveProjectSlug win cwd = resolveProjectSlug (win\<lparr>w_project_slug := None\<rparr>) cwd
       \<and> ((truthy_str cwd = None \<or> isHomePath cwd
             \<or> truthy_str (r_project_slug (parseRoutingFromCwd cwd)) = None)
            \<and> (\<forall>pat \<in> set patterns. \<not> str_includes (haystack win) (fst pat))
           \<longrightarrow> resolveProjectSlug win cwd
                 = \<lparr>slug = ''unassigned'', reason = ''no_match'', port = None\<rparr>)"
proof -
  have t: "trusted_slug win = None"
    using assms by (simp add: trusted_slug_def truthy_str_def)
  have t': "trusted_slug (win\<lparr>w_project_slug := None\<rparr>) = None"
    by (simp add: trusted_slug_def truthy_str_def)
  have h: "haystack (win\<lparr>w_project_slug := None\<rparr>) = haystack win"
    by (simp add: haystack_def)
  have 1: "reason (resolveProjectSlug win cwd) \<noteq> ''transcript''"
    by (simp add: resolveProjectSlug_def t split: option.splits)
  have 2: "resolveProjectSlug win cwd = resolveProjectSlug (win\<lparr>w_project_slug := None\<rparr>) cwd"
    by (simp add: resolveProjectSlug_def t t' h split: option.splits)
  have 3: "resolveProjectSlug win cwd = \<lparr>slug = ''unassigned'', reason = ''no_match'', port = None\<rparr>"
    if c: "truthy_str cwd = None \<or> isHomePath cwd
             \<or> truthy_str (r_project_slug (parseRoutingFromCwd cwd)) = None"
    and p: "\<forall>pat \<in> set patterns. \<not> str_includes (haystack win) (fst pat)"
  proof -
    have "cwd_routing cwd = None"
      using c by (auto simp: cwd_routing_def)
    moreover have "first_pattern (haystack win) patterns = None"
      using p by (simp add: first_pattern_None)
    ultimately show ?thesis
      by (simp add: resolveProjectSlug_def t)
  qed
  from 1 2 3 show ?thesis by blast
qed

text \<open>
  Witness for C1, on the scenario of the specification: the slug \<^verbatim>\<open>ai-team\<close>, a cwd
  under \<^verbatim>\<open>/home/bob\<close> extracted from the content, no pattern in the haystack.
\<close>

theorem low_trust_slug_never_trusted_witness:
  "w_project_slug bob_window = Some ''ai-team'' \<and> ''ai-team'' \<in> set LOW_TRUST_SLUGS
   \<and> isHomePath (extractCwdFromContent (w_content bob_window))
   \<and> first_pattern (haystack bob_window) patterns = None
   \<and> resolveProjectSlug bob_window (extractCwdFromContent (w_content bob_window))
       = \<lparr>slug = ''unassigned'', reason = ''no_match'', port = None\<rparr>"
proof -
  have s: "w_project_slug bob_window = Some ''ai-team''"
    by (simp add: bob_window_def)
  have l: "''ai-team'' \<in> set LOW_TRUST_SLUGS"
    by (simp add: LOW_TRUST_SLUGS_def)
  from low_trust_slug_never_trusted [OF s l, of "Some bob_cwd"]
    bob_cwd_is_home bob_haystack_no_pattern
  have r: "resolveProjectSlug bob_window (Some bob_cwd)
       = \<lparr>slug = ''unassigned'', reason = ''no_match'', port = None\<rparr>"
    by blast
  have n: "first_pattern (haystack bob_window) patterns = None"
    using bob_haystack_no_pattern by (simp only: first_pattern_None)
  show ?thesis
    unfolding bob_extract using s l bob_cwd_is_home n r by blast
qed

text \<open>
  C5. When the cwd is a home path, the resolver never answers from the path: the reason
  is never \<^verbatim>\<open>cwd\<close>, and the answer is the one it gives without any cwd, whatever the
  window holds.
\<close>

theorem home_path_never_routes:
  assumes "home_path_spec p"
  shows "reason (resolveProjectSlug win (Some p)) \<noteq> ''cwd''
         \<and> resolveProjectSlug win (Some p) = resolveProjectSlug win None"
proof -
  have r: "cwd_routing (Some p) = None"
    using assms by (simp add: cwd_routing_home home_path_spec_isHomePath)
  show ?thesis
    by (simp add: resolveProjectSlug_def r cwd_routing_None split: option.splits)
qed

text \<open>
  Witness for C5: the path router alone would route \<^verbatim>\<open>/home/bob/project-5401/x\<close> to
  \<^verbatim>\<open>project-5401\<close>; as a cwd of the resolver it is ignored.
\<close>

theorem home_path_never_routes_witness:
  "home_path_spec bob_cwd
   \<and> r_project_slug (parseRoutingFromCwd (Some bob_cwd)) = Some ''project-5401''
   \<and> reason (resolveProjectSlug plain_window (Some bob_cwd)) \<noteq> ''cwd''
   \<and> resolveProjectSlug plain_window (Some bob_cwd) = resolveProjectSlug plain_window None"
proof -
  have h: "home_path_spec bob_cwd"
    by (simp add: home_path_spec_def string_eval bob_cwd_def)
  have r: "r_project_slug (parseRoutingFromCwd (Some bob_cwd)) = Some ''project-5401''"
    by (simp add: bob_cwd_would_route)
  from home_path_never_routes [OF h, of plain_window] h r show ?thesis
    by blast
qed

text \<open>
  C9, as stated, fails: for a window with the trusted slug \<^verbatim>\<open>ai-jen\<close> the reason is the
  text \<^verbatim>\<open>transcript\<close>, not \<^verbatim>\<open>trusted-label\<close>.
\<close>

theorem reason_is_not_trusted_label:
  "w_project_slug jen_window = Some ''ai-jen'' \<and> ''ai-jen'' \<notin> set LOW_TRUST_SLUGS
   \<and> resolveProjectSlug jen_window None
       = \<lparr>slug = ''ai-jen-5402'', reason = ''transcript'', port = Some 5402\<rparr>
   \<and> reason (resolveProjectSlug jen_window None) \<noteq> ''trusted-label''"
  by (simp add: resolve_eval jen_window_def bob_window_def truthy_str_def)

text \<open>
  C9, amended. The reason is \<^verbatim>\<open>transcript\<close> when the window's slug is trusted, \<^verbatim>\<open>cwd\<close>
  when the cwd routing supplies the slug, \<^verbatim>\<open>content:\<close> followed by the matched pattern when
  the content sniffer supplies it, and \<^verbatim>\<open>no_match\<close> when the sentinel \<^verbatim>\<open>unassigned\<close> is
  returned; in every case it is one of these.
\<close>

theorem reason_values:
  "(\<forall>s. w_project_slug win = Some s \<and> s \<noteq> [] \<and> s \<notin> set LOW_TRUST_SLUGS
        \<longrightarrow> reason (resolveProjectSlug win cwd) = ''transcript'')
   \<and> (trusted_slug win = None \<and> cwd_routing cwd \<noteq> None
        \<longrightarrow> reason (resolveProjectSlug win cwd) = ''cwd'')
   \<and> (\<forall>pat. trusted_slug win = None \<and> cwd_routing cwd = None
          \<and> first_pattern (haystack win) patterns = Some pat
        \<longrightarrow> reason (resolveProjectSlug win cwd) = ''content:'' @ fst pat)
   \<and> (trusted_slug win = None \<and> cwd_routing cwd = None
        \<and> first_pattern (haystack win) patterns = None
        \<longrightarrow> resolveProjectSlug win cwd = \<lparr>slug = ''unassigned'', reason = ''no_match'', port = None\<rparr>)
   \<and> reason (resolveProjectSlug win cwd)
        \<in> {''transcript'', ''cwd'', ''no_match''} \<union> (\<lambda>pat. ''content:'' @ fst pat) ` set patterns"
proof -
  have 1: "reason (resolveProjectSlug win cwd) = ''transcript''"
    if "w_project_slug win = Some s" "s \<noteq> []" "s \<notin> set LOW_TRUST_SLUGS" for s
    using that by (simp add: resolveProjectSlug_def trusted_slug_def truthy_str_def)
  have 5: "reason (resolveProjectSlug win cwd)
        \<in> {''transcript'', ''cwd'', ''no_match''} \<union> (\<lambda>pat. ''content:'' @ fst pat) ` set patterns"
  proof (cases "first_pattern (haystack win) patterns")
    case None
    then show ?thesis
      by (simp add: resolveProjectSlug_def split: option.splits)
  next
    case (Some pat)
    then have "pat \<in> set patterns"
      by (simp add: first_pattern_Some)
    then have "''content:'' @ fst pat \<in> (\<lambda>pat. ''content:'' @ fst pat) ` set patterns"
      by (rule imageI)
    then show ?thesis
      using Some by (simp add: resolveProjectSlug_def split: option.splits)
  qed
  show ?thesis
    using 1 5 by (auto simp: resolveProjectSlug_def)
qed

text \<open>Witness for the amended C9: one window and cwd for each of the four cases.\<close>

theorem reason_values_witness:
  "reason (resolveProjectSlug jen_window None) = ''transcript''
   \<and> reason (resolveProjectSlug plain_window (Some ''/srv/ai-chad-5401/work'')) = ''cwd''
   \<and> reason (resolveProjectSlug nextbid_window None) = ''content:nextbid''
   \<and> resolveProjectSlug plain_window None
       = \<lparr>slug = ''unassigned'', reason = ''no_match'', port = None\<rparr>"
proof -
  have j: "w_project_slug jen_window = Some ''ai-jen'' \<and> ''ai-jen'' \<noteq> []
       \<and> ''ai-jen'' \<notin> set LOW_TRUST_SLUGS"
    by (simp add: jen_window_def LOW_TRUST_SLUGS_def)
  have t: "trusted_slug plain_window = None" "trusted_slug nextbid_window = None"
    by (simp_all add: trusted_slug_def plain_window_def nextbid_window_def truthy_str_def)
  have c: "cwd_routing (Some ''/srv/ai-chad-5401/work'') \<noteq> None"
    by (simp add: route_eval string_eval)
  have n: "cwd_routing None = None"
    by (rule cwd_routing_None)
  have p: "first_pattern (haystack nextbid_window) patterns = Some (''nextbid'', ''nextbid'')"
    by (simp add: resolve_eval string_eval nextbid_window_def bob_window_def truthy_str_def)
  have q: "first_pattern (haystack plain_window) patterns = None"
    by (simp add: resolve_eval string_eval plain_window_def bob_window_def truthy_str_def)
  from reason_values [of jen_window None] j
  have 1: "reason (resolveProjectSlug jen_window None) = ''transcript''"
    by blast
  from reason_values [of plain_window "Some ''/srv/ai-chad-5401/work''"] t c
  have 2: "reason (resolveProjectSlug plain_window (Some ''/srv/ai-chad-5401/work'')) = ''cwd''"
    by blast
  from reason_values [of nextbid_window None] t n p
  have 3: "reason (resolveProjectSlug nextbid_window None)
             = ''content:'' @ fst (''nextbid'', ''nextbid'')"
    by blast
  from reason_values [of plain_window None] t n q
  have 4: "resolveProjectSlug plain_window None
       = \<lparr>slug = ''unassigned'', reason = ''no_match'', port = None\<rparr>"
    by blast
  from 1 2 3 4 show ?thesis
    by simp
qed

text \<open>The second scenario of the specification: a window without slug whose content
  names the cwd \<^verbatim>\<open>/srv/ai-chad-5401/work\<close> resolves to \<^verbatim>\<open>ai-chad-5401\<close> with port 5401,
  from the path.\<close>

lemma scenario_path_derived:
  "extractCwdFromContent chad_content = Some ''/srv/ai-chad-5401/work''
   \<and> resolveProjectSlug (plain_window\<lparr>w_content := chad_content\<rparr>)
         (extractCwdFromContent chad_content)
       = \<lparr>slug = ''ai-chad-5401'', reason = ''cwd'', port = Some 5401\<rparr>"
proof -
  have e: "extractCwdFromContent chad_content = Some ''/srv/ai-chad-5401/work''"
    by (simp add: extractCwdFromContent_def cwd_match_at_def chad_content_def string_eval)
  have "resolveProjectSlug (plain_window\<lparr>w_content := chad_content\<rparr>)
          (Some ''/srv/ai-chad-5401/work'')
        = \<lparr>slug = ''ai-chad-5401'', reason = ''cwd'', port = Some 5401\<rparr>"
    by (simp add: resolve_eval route_eval string_eval plain_window_def bob_window_def)
  then show ?thesis
    using e by simp
qed

text \<open>The extractor turns every backslash into a slash, so a cwd under a Windows user
  directory reaches the resolver with \<^verbatim>\<open>/Users/\<close> in it. That is no home path for
  \<^verbatim>\<open>isHomePath\<close>, whose tests for \<^verbatim>\<open>\users\\<close> look for backslashes, and the path is
  routed.\<close>

lemma extracted_users_path_is_routed:
  "extractCwdFromContent users_content = Some ''C:/Users/bob/proj-5401''
   \<and> \<not> isHomePath (Some ''C:/Users/bob/proj-5401'')
   \<and> resolveProjectSlug (plain_window\<lparr>w_content := users_content\<rparr>)
         (extractCwdFromContent users_content)
       = \<lparr>slug = ''proj-5401'', reason = ''cwd'', port = Some 5401\<rparr>"
proof -
  have e: "extractCwdFromContent users_content = Some ''C:/Users/bob/proj-5401''"
    by (simp add: extractCwdFromContent_def cwd_match_at_def users_content_def string_eval)
  have h: "\<not> isHomePath (Some ''C:/Users/bob/proj-5401'')"
    by (simp add: route_eval string_eval)
  have "resolveProjectSlug (plain_window\<lparr>w_content := users_content\<rparr>)
          (Some ''C:/Users/bob/proj-5401'')
        = \<lparr>slug = ''proj-5401'', reason = ''cwd'', port = Some 5401\<rparr>"
    by (simp add: resolve_eval route_eval string_eval plain_window_def bob_window_def)
  then show ?thesis
    using e h by simp
qed

subsection \<open>Path router: accepted ports\<close>

text \<open>Every port the router returns lies in the accepted range.\<close>

lemma parseRoutingFromCwd_port_range:
  "r_team_port (parseRoutingFromCwd cwd) = Some p \<Longrightarrow> 4000 \<le> p \<and> p \<le> 9999"
  by (auto simp: parseRoutingFromCwd_def routing_fallback_def no_routing_def Let_def
           split: option.splits if_splits prod.splits)

text \<open>
  C4. The router is to accept no port from a hyphen-preceded run of six or more digits.
  On \<^verbatim>\<open>/srv/build-054011\<close> the run \<^verbatim>\<open>054011\<close> has six digits; the expression matches its
  first five, \<^verbatim>\<open>parseInt\<close> reads them as 5401, and the router returns the slug
  \<^verbatim>\<open>build-05401\<close> with port 5401.
\<close>

theorem leading_zero_run_accepted:
  "parseRoutingFromCwd (Some ''/srv/build-054011'')
     = \<lparr>r_project_slug = Some ''build-05401'', r_team_port = Some 5401\<rparr>"
  by (simp add: route_eval string_eval)

subsection \<open>Window keys: what a key determines\<close>

lemma digit_nth: "k < 10 \<Longrightarrow> ''0123456789'' ! k \<in> set ''0123456789''"
  by (rule nth_mem) simp

lemma digit_val_nth: "k < 10 \<Longrightarrow> digit_val (''0123456789'' ! k) = int k"
proof -
  assume "k < 10"
  then have "k \<in> set [0, 1, 2, 3, 4, 5, 6, 7, 8, 9]"
    by (simp only: set_simps insert_iff empty_iff) presburger
  then show ?thesis
    by (auto simp: digit_val_def)
qed

lemma show_nat_digits: "set (show_nat n) \<subseteq> set ''0123456789''"
proof (induction n rule: show_nat.induct)
  case (1 n)
  show ?case
  proof (cases "n < 10")
    case True
    then show ?thesis
      using digit_nth [of n] by (subst show_nat.simps) simp
  next
    case False
    then show ?thesis
      using 1 digit_nth [of "n mod 10"] by (subst show_nat.simps) simp
  qed
qed

lemma parseInt_snoc: "parseInt (ds @ [c]) = 10 * parseInt ds + digit_val c"
  by (simp add: parseInt_def)

text \<open>Reading back the decimal text of a number gives the number.\<close>

lemma parseInt_show_nat: "parseInt (show_nat n) = int n"
proof (induction n rule: show_nat.induct)
  case (1 n)
  show ?case
  proof (cases "n < 10")
    case True
    then show ?thesis
      by (subst show_nat.simps) (simp add: parseInt_def digit_val_nth)
  next
    case False
    then have "parseInt (show_nat (n div 10)) = int (n div 10)"
      using 1 by simp
    then have "parseInt (show_nat n) = 10 * int (n div 10) + int (n mod 10)"
      using False by (subst show_nat.simps) (simp add: parseInt_snoc digit_val_nth)
    then show ?thesis
      by (simp add: zdiv_int zmod_int)
  qed
qed

lemma show_nat_inj: "show_nat a = show_nat b \<Longrightarrow> a = b"
proof -
  assume "show_nat a = show_nat b"
  then have "parseInt (show_nat a) = parseInt (show_nat b)"
    by (rule arg_cong)
  then have "int a = int b"
    by (simp only: parseInt_show_nat)
  then show ?thesis
    by simp
qed

lemma show_nat_no_minus: "show_nat n \<noteq> CHR ''-'' # xs"
proof
  assume "show_nat n = CHR ''-'' # xs"
  then have "CHR ''-'' \<in> set (show_nat n)" by simp
  then have "CHR ''-'' \<in> set ''0123456789''" using show_nat_digits by blast
  then show False by simp
qed

lemma show_int_inj: "show_int a = show_int b \<Longrightarrow> a = b"
proof -
  assume e: "show_int a = show_int b"
  consider "a < 0" "b < 0" | "a < 0" "\<not> b < 0" | "\<not> a < 0" "b < 0" | "\<not> a < 0" "\<not> b < 0"
    by blast
  then show ?thesis
  proof cases
    case 1
    then have "nat (- a) = nat (- b)" using e by (simp add: show_int_def show_nat_inj)
    then show ?thesis using 1 by simp
  next
    case 2
    then have "show_nat (nat b) = CHR ''-'' # show_nat (nat (- a))"
      using e by (simp add: show_int_def)
    then show ?thesis using show_nat_no_minus by blast
  next
    case 3
    then have "show_nat (nat a) = CHR ''-'' # show_nat (nat (- b))"
      using e by (simp add: show_int_def)
    then show ?thesis using show_nat_no_minus by blast
  next
    case 4
    then have "nat a = nat b" using e by (simp add: show_int_def show_nat_inj)
    then show ?thesis using 4 by simp
  qed
qed

lemma show_int_no_colon: "CHR '':'' \<notin> set (show_int i)"
proof
  assume "CHR '':'' \<in> set (show_int i)"
  then have "CHR '':'' \<in> set (show_nat (nat (- i))) \<or> CHR '':'' \<in> set (show_nat (nat i))"
    by (auto simp: show_int_def split: if_splits)
  then have "CHR '':'' \<in> set ''0123456789''" using show_nat_digits by blast
  then show False by simp
qed

text \<open>The text after the last separator of a key is determined by the key.\<close>

lemma last_field:
  assumes "xs @ c # ys = xs' @ c # ys'" and "c \<notin> set ys" and "c \<notin> set ys'"
  shows "xs = xs' \<and> ys = ys'"
proof -
  have "takeWhile (\<lambda>x. x \<noteq> c) (rev (xs @ c # ys)) = rev ys"
    using assms(2) by (auto simp: takeWhile_tail)
  moreover have "takeWhile (\<lambda>x. x \<noteq> c) (rev (xs' @ c # ys')) = rev ys'"
    using assms(3) by (auto simp: takeWhile_tail)
  ultimately have "rev ys = rev ys'"
    using assms(1) by simp
  then have "ys = ys'" by simp
  then show ?thesis using assms(1) by simp
qed

text \<open>Records with the same key have the same port (after defaulting) and the same
  window start: the two numeric fields end the key and hold no colon.\<close>

lemma record_key_fields:
  assumes "record_key a = record_key b"
  shows "teamPort a = teamPort b \<and> window_start (record_ts a) = window_start (record_ts b)"
proof -
  let ?A = "sourceType a @ '':'' @ sourceName a"
  let ?B = "sourceType b @ '':'' @ sourceName b"
  let ?Pa = "show_int (teamPort a)" and ?Pb = "show_int (teamPort b)"
  let ?Wa = "show_int (window_start (record_ts a))"
  let ?Wb = "show_int (window_start (record_ts b))"
  have ka: "record_key a = (?A @ CHR '':'' # ?Pa) @ CHR '':'' # ?Wa"
    by (simp add: record_key_def)
  have kb: "record_key b = (?B @ CHR '':'' # ?Pb) @ CHR '':'' # ?Wb"
    by (simp add: record_key_def)
  have k: "(?A @ CHR '':'' # ?Pa) @ CHR '':'' # ?Wa = (?B @ CHR '':'' # ?Pb) @ CHR '':'' # ?Wb"
    using assms unfolding ka kb .
  have 1: "?A @ CHR '':'' # ?Pa = ?B @ CHR '':'' # ?Pb"
    using last_field [OF k show_int_no_colon show_int_no_colon] by (rule conjunct1)
  have 2: "?Wa = ?Wb"
    using last_field [OF k show_int_no_colon show_int_no_colon] by (rule conjunct2)
  have 3: "?Pa = ?Pb"
    using last_field [OF 1 show_int_no_colon show_int_no_colon] by (rule conjunct2)
  show ?thesis
    using 2 3 show_int_inj by blast
qed

lemma teamPort_truthy:
  "teamPort a = teamPort b \<Longrightarrow> truthy_num (t_team_port a) = truthy_num (t_team_port b)"
  by (auto simp: teamPort_def or_num_def truthy_num_def split: option.splits if_splits)

text \<open>Records that agree on the four defaulted fields have the same key.\<close>

lemma same_fields_same_key:
  "sourceType a = sourceType b \<Longrightarrow> sourceName a = sourceName b \<Longrightarrow> teamPort a = teamPort b
     \<Longrightarrow> window_start (record_ts a) = window_start (record_ts b)
     \<Longrightarrow> record_key a = record_key b"
  by (simp add: record_key_def)

subsection \<open>Window aggregator: members, fields and reordering\<close>

lemma windows_of_snoc: "windows_of (ts @ [t]) = add_record t (windows_of ts)"
  by (simp add: windows_of_def)

lemma windows_of_Nil: "windows_of [] = []"
  by (simp add: windows_of_def)

lemma window_from_snoc: "window_from m (ms @ [t]) = push_record t (window_from m ms)"
  by (simp add: window_from_def)

lemma map_of_None_keys: "map_of ws k = None \<longleftrightarrow> k \<notin> fst ` set ws"
  by (simp add: map_of_eq_None_iff)

lemma add_record_new:
  assumes "record_key t \<notin> fst ` set ws"
  shows "add_record t ws = ws @ [(record_key t, push_record t (new_window t))]"
proof -
  have "map (\<lambda>(k, w). if k = record_key t then (k, push_record t w) else (k, w)) ws = ws"
    using assms by (induction ws) auto
  then show ?thesis
    using assms by (simp add: add_record_def map_of_None_keys)
qed

lemma add_record_old:
  assumes "record_key t \<in> fst ` set ws"
  shows "add_record t ws
         = map (\<lambda>(k, w). if k = record_key t then (k, push_record t w) else (k, w)) ws"
  using assms by (simp add: add_record_def map_of_None_keys)

lemma add_record_keys: "map fst (add_record t ws)
   = (if record_key t \<in> fst ` set ws then map fst ws else map fst ws @ [record_key t])"
proof (cases "record_key t \<in> fst ` set ws")
  case True
  have "map fst (map (\<lambda>(k, w). if k = record_key t then (k, push_record t w) else (k, w)) ws)
        = map fst ws"
    by (induction ws) auto
  then show ?thesis using True by (simp add: add_record_old)
next
  case False
  then show ?thesis by (simp add: add_record_new)
qed

text \<open>The keys of the windows are the keys of the records, each once.\<close>

lemma windows_of_keys: "set (map fst (windows_of ts)) = record_key ` set ts"
proof (induction ts rule: rev_induct)
  case Nil
  show ?case by (simp add: windows_of_Nil)
next
  case (snoc t ts)
  then show ?case
    by (auto simp: windows_of_snoc add_record_keys)
qed

lemma windows_of_distinct: "distinct (map fst (windows_of ts))"
proof (induction ts rule: rev_induct)
  case Nil
  show ?case by (simp add: windows_of_Nil)
next
  case (snoc t ts)
  then show ?case
    by (simp add: windows_of_snoc add_record_keys)
qed

text \<open>The window stored under a key is built from the records of the batch with that
  key, in batch order.\<close>

lemma windows_of_members:
  "(k, w) \<in> set (windows_of ts) \<Longrightarrow>
     \<exists>m ms. filter (\<lambda>t. record_key t = k) ts = m # ms \<and> w = window_from m ms"
proof (induction ts arbitrary: k w rule: rev_induct)
  case Nil
  then show ?case by (simp add: windows_of_Nil)
next
  case (snoc t ts)
  show ?case
  proof (cases "record_key t \<in> fst ` set (windows_of ts)")
    case False
    then have new: "windows_of (ts @ [t])
        = windows_of ts @ [(record_key t, push_record t (new_window t))]"
      by (simp add: windows_of_snoc add_record_new)
    show ?thesis
    proof (cases "(k, w) \<in> set (windows_of ts)")
      case True
      then have "k \<noteq> record_key t"
        using False by force
      then show ?thesis
        using snoc.IH [OF True] by simp
    next
      case notin: False
      then have kw: "k = record_key t" "w = push_record t (new_window t)"
        using snoc.prems new by auto
      have nk: "record_key t \<notin> record_key ` set ts"
        using False windows_of_keys [of ts] by simp
      have "record_key x \<noteq> record_key t" if "x \<in> set ts" for x
        using that nk by (metis image_eqI)
      then have "filter (\<lambda>x. record_key x = record_key t) ts = []"
        by (simp add: filter_empty_conv)
      then show ?thesis
        using kw by (simp add: window_from_def)
    qed
  next
    case True
    then have old: "windows_of (ts @ [t])
        = map (\<lambda>(k, w). if k = record_key t then (k, push_record t w) else (k, w)) (windows_of ts)"
      by (simp add: windows_of_snoc add_record_old)
    from snoc.prems old obtain k0 w0 where
      kw0: "(k0, w0) \<in> set (windows_of ts)"
      and eq: "(k, w) = (if k0 = record_key t then (k0, push_record t w0) else (k0, w0))"
      by auto
    from snoc.IH [OF kw0] obtain m ms where
      f: "filter (\<lambda>x. record_key x = k0) ts = m # ms" and w0: "w0 = window_from m ms"
      by blast
    show ?thesis
    proof (cases "k0 = record_key t")
      case True
      then show ?thesis
        using eq f w0 by (simp add: window_from_snoc)
    next
      case False
      then show ?thesis
        using eq f w0 by auto
    qed
  qed
qed

lemma foldl_push_fields:
  "w_transcripts (foldl (\<lambda>w t. push_record t w) w0 ms) = w_transcripts w0 @ ms
   \<and> w_content (foldl (\<lambda>w t. push_record t w) w0 ms) = w_content w0 @ concat (map content_line ms)
   \<and> w_earliest_ts (foldl (\<lambda>w t. push_record t w) w0 ms)
       = Min (insert (w_earliest_ts w0) (record_ts ` set ms))
   \<and> w_latest_ts (foldl (\<lambda>w t. push_record t w) w0 ms)
       = Max (insert (w_latest_ts w0) (record_ts ` set ms))
   \<and> w_windowStart (foldl (\<lambda>w t. push_record t w) w0 ms) = w_windowStart w0
   \<and> w_source_type (foldl (\<lambda>w t. push_record t w) w0 ms) = w_source_type w0
   \<and> w_session_file (foldl (\<lambda>w t. push_record t w) w0 ms) = w_session_file w0
   \<and> w_project_folder (foldl (\<lambda>w t. push_record t w) w0 ms) = w_project_folder w0
   \<and> w_project_slug (foldl (\<lambda>w t. push_record t w) w0 ms) = w_project_slug w0
   \<and> w_team_port (foldl (\<lambda>w t. push_record t w) w0 ms) = w_team_port w0"
proof (induction ms rule: rev_induct)
  case Nil
  show ?case by simp
next
  case (snoc t ms)
  have mn: "min (Min (insert a (record_ts ` set ms))) b
            = Min (insert a (insert b (record_ts ` set ms)))" for a b
    by (subst insert_commute, subst Min_insert) (simp_all add: min.commute)
  have mx: "max (Max (insert a (record_ts ` set ms))) b
            = Max (insert a (insert b (record_ts ` set ms)))" for a b
    by (subst insert_commute, subst Max_insert) (simp_all add: max.commute)
  show ?case
    using snoc by (simp add: push_record_def mn mx)
qed

lemma window_from_fields:
  "w_transcripts (window_from m ms) = m # ms"
  "w_content (window_from m ms) = concat (map content_line (m # ms))"
  "w_earliest_ts (window_from m ms) = Min (record_ts ` set (m # ms))"
  "w_latest_ts (window_from m ms) = Max (record_ts ` set (m # ms))"
  "w_windowStart (window_from m ms) = window_start (record_ts m)"
  "w_source_type (window_from m ms) = sourceType m"
  "w_session_file (window_from m ms) = sourceName m"
  "w_project_folder (window_from m ms) = truthy_str (t_project_folder m)"
  "w_project_slug (window_from m ms) = truthy_str (t_project_slug m)"
  "w_team_port (window_from m ms) = truthy_num (t_team_port m)"
  unfolding window_from_def
  using foldl_push_fields [of "new_window m" "m # ms"]
  by (simp_all add: new_window_def)

lemma windows_of_member_key:
  assumes "(k, w) \<in> set (windows_of ts)"
  obtains m ms where "filter (\<lambda>t. record_key t = k) ts = m # ms" and "w = window_from m ms"
    and "record_key m = k"
proof -
  from windows_of_members [OF assms] obtain m ms where
    f: "filter (\<lambda>t. record_key t = k) ts = m # ms" and w: "w = window_from m ms"
    by blast
  have "m \<in> set (filter (\<lambda>t. record_key t = k) ts)"
    by (simp add: f)
  then have "record_key m = k"
    by simp
  with f w show ?thesis
    by (rule that)
qed

lemma windows_of_length_card: "length (groupByTimeWindow ts) = card (record_key ` set ts)"
proof -
  have "length (map fst (windows_of ts)) = card (set (map fst (windows_of ts)))"
    using windows_of_distinct [of ts] by (simp only: distinct_card)
  then show ?thesis
    by (simp add: groupByTimeWindow_def windows_of_keys del: set_map)
qed

text \<open>Every record of the batch is a member of the window stored under its key, and
  that window starts at \<open>floor (ts / 1800000) * 1800000\<close> for the record's own timestamp.\<close>

lemma record_window_start:
  assumes "t \<in> set ts"
  shows "\<exists>w. (record_key t, w) \<in> set (windows_of ts) \<and> t \<in> set (w_transcripts w)
            \<and> w_windowStart w = (record_ts t div 1800000) * 1800000"
proof -
  have "record_key t \<in> fst ` set (windows_of ts)"
    using assms windows_of_keys [of ts] by simp
  then obtain w where kw: "(record_key t, w) \<in> set (windows_of ts)"
    by auto
  then obtain m ms where
    f: "filter (\<lambda>x. record_key x = record_key t) ts = m # ms" and w: "w = window_from m ms"
    and k: "record_key m = record_key t"
    by (rule windows_of_member_key)
  have "t \<in> set (filter (\<lambda>x. record_key x = record_key t) ts)"
    using assms by simp
  then have mem: "t \<in> set (w_transcripts w)"
    unfolding w window_from_fields f .
  have "window_start (record_ts m) = window_start (record_ts t)"
    using record_key_fields [OF k] by (rule conjunct2)
  then have "w_windowStart w = (record_ts t div 1800000) * 1800000"
    unfolding w window_from_fields by (simp add: window_start_def TIME_WINDOW_MS_def)
  with kw mem show ?thesis
    by (intro exI conjI)
qed

lemma same_key_windows:
  assumes p: "mset xs = mset ys"
    and a: "(k, w1) \<in> set (windows_of xs)" and b: "(k, w2) \<in> set (windows_of ys)"
  shows "mset (w_transcripts w1) = mset (w_transcripts w2)"
    and "w_earliest_ts w1 = w_earliest_ts w2"
    and "w_latest_ts w1 = w_latest_ts w2"
    and "w_windowStart w1 = w_windowStart w2"
    and "w_team_port w1 = w_team_port w2"
proof -
  from a obtain m1 ms1 where
    f1: "filter (\<lambda>t. record_key t = k) xs = m1 # ms1" and w1: "w1 = window_from m1 ms1"
    and k1: "record_key m1 = k"
    by (rule windows_of_member_key)
  from b obtain m2 ms2 where
    f2: "filter (\<lambda>t. record_key t = k) ys = m2 # ms2" and w2: "w2 = window_from m2 ms2"
    and k2: "record_key m2 = k"
    by (rule windows_of_member_key)
  have "mset (filter (\<lambda>t. record_key t = k) xs) = mset (filter (\<lambda>t. record_key t = k) ys)"
    using p by (simp only: mset_filter)
  then have m: "mset (m1 # ms1) = mset (m2 # ms2)"
    by (simp only: f1 f2)
  then have st: "set (m1 # ms1) = set (m2 # ms2)"
    by (rule mset_eq_setD)
  have "record_key m1 = record_key m2"
    using k1 k2 by simp
  then have kf: "teamPort m1 = teamPort m2
      \<and> window_start (record_ts m1) = window_start (record_ts m2)"
    by (rule record_key_fields)
  show "mset (w_transcripts w1) = mset (w_transcripts w2)"
    unfolding w1 w2 window_from_fields by (rule m)
  show "w_earliest_ts w1 = w_earliest_ts w2"
    unfolding w1 w2 window_from_fields st ..
  show "w_latest_ts w1 = w_latest_ts w2"
    unfolding w1 w2 window_from_fields st ..
  show "w_windowStart w1 = w_windowStart w2"
    unfolding w1 w2 window_from_fields using kf by (rule conjunct2)
  show "w_team_port w1 = w_team_port w2"
    unfolding w1 w2 window_from_fields using kf by (intro teamPort_truthy) (rule conjunct1)
qed

lemma window_content_lines:
  assumes "(k, w) \<in> set (windows_of ts)"
  shows "w_content w = concat (map content_line (w_transcripts w))"
proof -
  from assms obtain m ms where w: "w = window_from m ms"
    by (rule windows_of_member_key)
  show ?thesis
    unfolding w window_from_fields ..
qed

lemma key_a: "record_key rec_a = key_ab"
  by (simp add: key_eval rec_a_def key_ab_def)

lemma key_b: "record_key rec_b = key_ab"
  by (simp add: key_eval rec_b_def key_ab_def)

lemma windows_ab: "windows_of [rec_a, rec_b] = [(key_ab, window_ab)]"
  by (simp add: group_eval key_a key_b window_ab_def)
    (simp add: rec_a_def rec_b_def key_eval)

lemma windows_ba: "windows_of [rec_b, rec_a] = [(key_ab, window_ba)]"
  by (simp add: group_eval key_a key_b window_ba_def)
    (simp add: rec_a_def rec_b_def key_eval)

text \<open>
  C2. Two records are to share a window only when they agree on source type, session
  file, port and window start. The key is the four fields joined by colons, so
  \<^verbatim>\<open>rec_c\<close> (source type \<^verbatim>\<open>transcript:a\<close>, session file \<^verbatim>\<open>b\<close>) and \<^verbatim>\<open>rec_d\<close> (source type
  \<^verbatim>\<open>transcript\<close>, session file \<^verbatim>\<open>a:b\<close>) have the same key and are aggregated into one
  window.
\<close>

theorem colliding_keys_share_window:
  "(sourceType rec_c, sourceName rec_c) \<noteq> (sourceType rec_d, sourceName rec_d)
   \<and> record_key rec_c = record_key rec_d
   \<and> groupByTimeWindow [rec_c, rec_d] = [window_cd]"
proof -
  have c: "record_key rec_c = ''transcript:a:b:0:3600000''"
    by (simp add: key_eval rec_c_def)
  have d: "record_key rec_d = ''transcript:a:b:0:3600000''"
    by (simp add: key_eval rec_d_def)
  have "groupByTimeWindow [rec_c, rec_d] = [window_cd]"
    by (simp add: group_eval c d window_cd_def) (simp add: rec_c_def rec_d_def key_eval)
  moreover have "(sourceType rec_c, sourceName rec_c) \<noteq> (sourceType rec_d, sourceName rec_d)"
    by (simp add: key_eval rec_c_def rec_d_def)
  ultimately show ?thesis
    using c d by simp
qed

text \<open>
  C8, as stated, fails: \<^verbatim>\<open>rec_a\<close> and \<^verbatim>\<open>rec_b\<close> belong to one window, and the window's
  slug is \<^verbatim>\<open>nextbid\<close> for the batch in one order and \<^verbatim>\<open>kodiack-studio\<close> in the other.
\<close>

theorem reordering_changes_window_slug:
  "mset [rec_a, rec_b] = mset [rec_b, rec_a]
   \<and> map w_project_slug (groupByTimeWindow [rec_a, rec_b]) = [Some ''nextbid'']
   \<and> map w_project_slug (groupByTimeWindow [rec_b, rec_a]) = [Some ''kodiack-studio'']"
  by (simp add: groupByTimeWindow_def windows_ab windows_ba window_ab_def window_ba_def)

text \<open>
  C8, amended. For a batch and any permutation of it the aggregator produces windows
  under the same keys and as many of them; the two windows under one key have the same
  member records, the same earliest and latest timestamps, the same window start and
  the same port, and the content of each is the concatenation of its members' lines in
  the order they were iterated.
\<close>

theorem windows_permutation_invariant:
  assumes "mset xs = mset ys"
  shows "fst ` set (windows_of xs) = fst ` set (windows_of ys)
     \<and> length (groupByTimeWindow xs) = length (groupByTimeWindow ys)
     \<and> (\<forall>k w1 w2. (k, w1) \<in> set (windows_of xs) \<and> (k, w2) \<in> set (windows_of ys) \<longrightarrow>
          mset (w_transcripts w1) = mset (w_transcripts w2)
          \<and> w_earliest_ts w1 = w_earliest_ts w2 \<and> w_latest_ts w1 = w_latest_ts w2
          \<and> w_windowStart w1 = w_windowStart w2 \<and> w_team_port w1 = w_team_port w2
          \<and> w_content w1 = concat (map content_line (w_transcripts w1))
          \<and> w_content w2 = concat (map content_line (w_transcripts w2)))"
proof (intro conjI allI impI)
  have s: "set xs = set ys"
    using assms by (rule mset_eq_setD)
  show "fst ` set (windows_of xs) = fst ` set (windows_of ys)"
    using windows_of_keys [of xs] windows_of_keys [of ys] s by simp
  show "length (groupByTimeWindow xs) = length (groupByTimeWindow ys)"
    by (simp only: windows_of_length_card s)
next
  fix k w1 w2
  assume "(k, w1) \<in> set (windows_of xs) \<and> (k, w2) \<in> set (windows_of ys)"
  then have a: "(k, w1) \<in> set (windows_of xs)" and b: "(k, w2) \<in> set (windows_of ys)"
    by (rule conjunct1, rule conjunct2)
  show "mset (w_transcripts w1) = mset (w_transcripts w2)"
    using assms a b by (rule same_key_windows)
  show "w_earliest_ts w1 = w_earliest_ts w2"
    using assms a b by (rule same_key_windows)
  show "w_latest_ts w1 = w_latest_ts w2"
    using assms a b by (rule same_key_windows)
  show "w_windowStart w1 = w_windowStart w2"
    using assms a b by (rule same_key_windows)
  show "w_team_port w1 = w_team_port w2"
    using assms a b by (rule same_key_windows)
  show "w_content w1 = concat (map content_line (w_transcripts w1))"
    using a by (rule window_content_lines)
  show "w_content w2 = concat (map content_line (w_transcripts w2))"
    using b by (rule window_content_lines)
qed

text \<open>Witness for the amended C8, on the batch \<^verbatim>\<open>[rec_a, rec_b]\<close> and its reversal.\<close>

theorem windows_permutation_invariant_witness:
  "mset [rec_a, rec_b] = mset [rec_b, rec_a]
   \<and> (key_ab, window_ab) \<in> set (windows_of [rec_a, rec_b])
   \<and> (key_ab, window_ba) \<in> set (windows_of [rec_b, rec_a])
   \<and> fst ` set (windows_of [rec_a, rec_b]) = fst ` set (windows_of [rec_b, rec_a])
   \<and> mset (w_transcripts window_ab) = mset (w_transcripts window_ba)
   \<and> w_earliest_ts window_ab = w_earliest_ts window_ba
   \<and> w_latest_ts window_ab = w_latest_ts window_ba
   \<and> w_windowStart window_ab = w_windowStart window_ba
   \<and> w_team_port window_ab = w_team_port window_ba"
proof -
  have p: "mset [rec_a, rec_b] = mset [rec_b, rec_a]"
    by simp
  have a: "(key_ab, window_ab) \<in> set (windows_of [rec_a, rec_b])"
    by (simp add: windows_ab)
  have b: "(key_ab, window_ba) \<in> set (windows_of [rec_b, rec_a])"
    by (simp add: windows_ba)
  from windows_permutation_invariant [OF p] a b p show ?thesis
    by blast
qed

text \<open>
  C10. Every window the aggregator returns has a first member \<open>m\<close>, the first record of
  the batch with the window's key; the window's slug, folder and port are those of \<open>m\<close>
  (absent when \<open>m\<close> lacks them), whatever the later members carry.
\<close>

theorem window_fields_from_first_record:
  "\<forall>w \<in> set (groupByTimeWindow ts).
     \<exists>m ms. w_transcripts w = m # ms
       \<and> filter (\<lambda>t. record_key t = record_key m) ts = m # ms
       \<and> w_project_slug w = truthy_str (t_project_slug m)
       \<and> w_project_folder w = truthy_str (t_project_folder m)
       \<and> w_team_port w = truthy_num (t_team_port m)"
proof
  fix w
  assume "w \<in> set (groupByTimeWindow ts)"
  then obtain k where "(k, w) \<in> set (windows_of ts)"
    by (auto simp: groupByTimeWindow_def)
  then obtain m ms where
    f: "filter (\<lambda>t. record_key t = k) ts = m # ms" and w: "w = window_from m ms"
    and k: "record_key m = k"
    by (rule windows_of_member_key)
  have "w_transcripts w = m # ms
       \<and> filter (\<lambda>t. record_key t = record_key m) ts = m # ms
       \<and> w_project_slug w = truthy_str (t_project_slug m)
       \<and> w_project_folder w = truthy_str (t_project_folder m)
       \<and> w_team_port w = truthy_num (t_team_port m)"
    unfolding w window_from_fields k using f by simp
  then show "\<exists>m ms. w_transcripts w = m # ms
       \<and> filter (\<lambda>t. record_key t = record_key m) ts = m # ms
       \<and> w_project_slug w = truthy_str (t_project_slug m)
       \<and> w_project_folder w = truthy_str (t_project_folder m)
       \<and> w_team_port w = truthy_num (t_team_port m)"
    by (intro exI)
qed

text \<open>Witness for C10: the window of \<^verbatim>\<open>[rec_a, rec_b]\<close> carries the slug and folder of
  \<^verbatim>\<open>rec_a\<close>, and \<^verbatim>\<open>rec_b\<close> carries other ones.\<close>

theorem window_fields_from_first_record_witness:
  "window_ab \<in> set (groupByTimeWindow [rec_a, rec_b])
   \<and> w_transcripts window_ab = [rec_a, rec_b]
   \<and> w_project_slug window_ab = truthy_str (t_project_slug rec_a)
   \<and> w_project_folder window_ab = truthy_str (t_project_folder rec_a)
   \<and> w_team_port window_ab = truthy_num (t_team_port rec_a)
   \<and> truthy_str (t_project_slug rec_b) \<noteq> truthy_str (t_project_slug rec_a)
   \<and> truthy_str (t_project_folder rec_b) \<noteq> truthy_str (t_project_folder rec_a)"
proof -
  have m: "window_ab \<in> set (groupByTimeWindow [rec_a, rec_b])"
    by (simp add: groupByTimeWindow_def windows_ab)
  have t: "w_transcripts window_ab = [rec_a, rec_b]"
    by (simp add: window_ab_def)
  from window_fields_from_first_record [of "[rec_a, rec_b]"] m obtain f fs where
    "w_transcripts window_ab = f # fs"
    and r: "w_project_slug window_ab = truthy_str (t_project_slug f)
       \<and> w_project_folder window_ab = truthy_str (t_project_folder f)
       \<and> w_team_port window_ab = truthy_num (t_team_port f)"
    by blast
  then have "f = rec_a"
    using t by simp
  moreover have "truthy_str (t_project_slug rec_b) \<noteq> truthy_str (t_project_slug rec_a)"
    by (simp add: rec_a_def rec_b_def truthy_str_def)
  moreover have "truthy_str (t_project_folder rec_b) \<noteq> truthy_str (t_project_folder rec_a)"
    by (simp add: rec_a_def rec_b_def truthy_str_def)
  ultimately show ?thesis
    using m t r by simp
qed

subsection \<open>Processing pass: what each window does to the counters and the store\<close>

lemma markTranscriptsProcessed_rows:
  "raw_rows (markTranscriptsProcessed ids st) = mark_rows (set ids) (raw_rows st)"
proof (induction ids arbitrary: st)
  case Nil
  show ?case by (simp add: mark_rows_def)
next
  case (Cons i ids)
  have "mark_rows (set ids) (raw_rows (update_processed i st))
        = mark_rows (set (i # ids)) (raw_rows st)"
    by (simp add: mark_rows_def update_processed_def)
  then show ?case
    using Cons by simp
qed

lemma markTranscriptsProcessed_sessions:
  "session_rows (markTranscriptsProcessed ids st) = session_rows st"
  by (induction ids arbitrary: st) (simp_all add: update_processed_def)

lemma mark_window_fields:
  "errors (mark_window win s) = errors s"
  "sessionsCreated (mark_window win s) = sessionsCreated s"
  "transcriptsProcessed (mark_window win s) = transcriptsProcessed s + length (w_transcripts win)"
  "session_rows (pstore (mark_window win s)) = session_rows (pstore s)"
  "raw_rows (pstore (mark_window win s))
     = mark_rows (t_id ` set (w_transcripts win)) (raw_rows (pstore s))"
  by (simp_all add: mark_window_def markTranscriptsProcessed_rows markTranscriptsProcessed_sessions)

lemma mark_rows_processed:
  "r \<in> set (mark_rows ids rows) \<Longrightarrow> t_id r \<in> ids \<Longrightarrow> t_processed r"
  by (auto simp: mark_rows_def split: if_splits)

lemma key_long: "record_key rec_long = ''transcript:long.jsonl:0:3600000''"
  by (simp add: key_eval rec_long_def)

lemma group_long: "groupByTimeWindow [rec_long] = [window_long]"
  by (simp add: group_eval key_long window_long_def) (simp add: rec_long_def key_eval)

lemma group_ab: "groupByTimeWindow [rec_a, rec_b] = [window_ab]"
  by (simp add: groupByTimeWindow_def windows_ab)

lemma pass_long:
  "processTranscripts d (FetchData (Some [rec_long])) store0
     = (\<lparr>sum_processed = transcriptsProcessed (process_window d window_long start_state),
         sum_sessions = Some (sessionsCreated (process_window d window_long start_state)),
         sum_errors = errors (process_window d window_long start_state)\<rparr>,
        pstore (process_window d window_long start_state))"
  by (simp add: processTranscripts_def run_windows_def group_long start_state_def Let_def)

lemma pass_ab:
  "processTranscripts d (FetchData (Some [rec_a, rec_b])) store0
     = (\<lparr>sum_processed = transcriptsProcessed (process_window d window_ab start_state),
         sum_sessions = Some (sessionsCreated (process_window d window_ab start_state)),
         sum_errors = errors (process_window d window_ab start_state)\<rparr>,
        pstore (process_window d window_ab start_state))"
  by (simp add: processTranscripts_def run_windows_def group_ab start_state_def Let_def)

lemma start_state_values:
  "errors start_state = 0" "sessionsCreated start_state = 0" "transcriptsProcessed start_state = 0"
  "pstore start_state = store0" "session_rows store0 = []" "raw_rows store0 = [rec_a, rec_b, rec_long]"
  by (simp_all add: start_state_def initial_state_def store0_def)

lemma mark_rows_twice: "mark_rows A (mark_rows B rows) = mark_rows (A \<union> B) rows"
  by (induction rows) (auto simp: mark_rows_def)

lemma mark_rows_empty: "mark_rows {} rows = rows"
  by (simp add: mark_rows_def)

lemma mark_rows_keeps_processed:
  assumes "\<forall>r \<in> set rows. t_id r \<in> I \<longrightarrow> t_processed r"
  shows "\<forall>r \<in> set (mark_rows J rows). t_id r \<in> I \<longrightarrow> t_processed r"
  using assms by (auto simp: mark_rows_def)

lemma process_window_rows:
  "\<exists>ids. raw_rows (pstore (process_window d win s)) = mark_rows ids (raw_rows (pstore s))"
proof -
  let ?I = "t_id ` set (w_transcripts win)"
  have "raw_rows (pstore (process_window d win s)) = mark_rows ?I (raw_rows (pstore s))
        \<or> raw_rows (pstore (process_window d win s)) = mark_rows {} (raw_rows (pstore s))"
    by (simp add: process_window_def mark_window_fields mark_rows_empty Let_def
             split: option.splits)
  then show ?thesis
    by blast
qed

lemma process_window_counts:
  "transcriptsProcessed s \<le> transcriptsProcessed (process_window d win s)
   \<and> errors s \<le> errors (process_window d win s)
   \<and> sessionsCreated s \<le> sessionsCreated (process_window d win s)"
  by (simp add: process_window_def mark_window_fields Let_def split: option.splits)

lemma run_windows_Cons:
  "run_windows d s (win # wins) = run_windows d (process_window d win s) wins"
  by (simp add: run_windows_def)

lemma run_windows_append:
  "run_windows d s (pre @ wins) = run_windows d (run_windows d s pre) wins"
  by (simp add: run_windows_def)

text \<open>Along the rest of a pass the counters never decrease and the raw table only has
  more rows marked.\<close>

lemma run_windows_counts:
  "transcriptsProcessed s \<le> transcriptsProcessed (run_windows d s wins)
   \<and> errors s \<le> errors (run_windows d s wins)
   \<and> sessionsCreated s \<le> sessionsCreated (run_windows d s wins)"
proof (induction wins arbitrary: s)
  case Nil
  show ?case by (simp add: run_windows_def)
next
  case (Cons win wins)
  show ?case
    using process_window_counts [of s d win] Cons [of "process_window d win s"]
    by (simp only: run_windows_Cons) linarith
qed

lemma run_windows_rows:
  "\<exists>ids. raw_rows (pstore (run_windows d s wins)) = mark_rows ids (raw_rows (pstore s))"
proof (induction wins arbitrary: s)
  case Nil
  have "raw_rows (pstore (run_windows d s [])) = mark_rows {} (raw_rows (pstore s))"
    by (simp add: mark_rows_empty run_windows_def)
  then show ?case
    by (rule exI)
next
  case (Cons win wins)
  from process_window_rows [of d win s] obtain A where
    a: "raw_rows (pstore (process_window d win s)) = mark_rows A (raw_rows (pstore s))"
    by blast
  from Cons [of "process_window d win s"] obtain B where
    b: "raw_rows (pstore (run_windows d (process_window d win s) wins))
          = mark_rows B (raw_rows (pstore (process_window d win s)))"
    by blast
  have "raw_rows (pstore (run_windows d s (win # wins))) = mark_rows (B \<union> A) (raw_rows (pstore s))"
    by (simp only: run_windows_Cons b a mark_rows_twice)
  then show ?case
    by (rule exI)
qed

text \<open>
  A pass over a non-empty batch, seen from one of its windows: with \<open>s\<close> the state in
  which the window is reached and \<open>s'\<close> the state after it, the summary is read off a
  final state whose processed and error counts are at least those of \<open>s'\<close> and in which
  every row marked in \<open>s'\<close> is still marked.
\<close>

lemma pass_after_window:
  assumes "transcripts \<noteq> []" and "groupByTimeWindow transcripts = pre @ win # post"
  shows "\<exists>final.
           processTranscripts d (FetchData (Some transcripts)) st
             = (\<lparr>sum_processed = transcriptsProcessed final,
                 sum_sessions = Some (sessionsCreated final),
                 sum_errors = errors final\<rparr>, pstore final)
           \<and> final = run_windows d (process_window d win (run_windows d (initial_state st) pre)) post
           \<and> transcriptsProcessed (process_window d win (run_windows d (initial_state st) pre))
               \<le> transcriptsProcessed final
           \<and> errors (process_window d win (run_windows d (initial_state st) pre)) \<le> errors final
           \<and> (\<forall>I. (\<forall>r \<in> set (raw_rows (pstore
                        (process_window d win (run_windows d (initial_state st) pre)))).
                      t_id r \<in> I \<longrightarrow> t_processed r)
                 \<longrightarrow> (\<forall>r \<in> set (raw_rows (pstore final)). t_id r \<in> I \<longrightarrow> t_processed r))"
proof -
  let ?s' = "process_window d win (run_windows d (initial_state st) pre)"
  let ?final = "run_windows d ?s' post"
  have f: "run_windows d (initial_state st) (groupByTimeWindow transcripts) = ?final"
    by (simp only: assms(2) run_windows_append run_windows_Cons)
  have p: "processTranscripts d (FetchData (Some transcripts)) st
             = (\<lparr>sum_processed = transcriptsProcessed ?final,
                 sum_sessions = Some (sessionsCreated ?final),
                 sum_errors = errors ?final\<rparr>, pstore ?final)"
    using assms(1) by (simp add: processTranscripts_def f Let_def)
  have c: "transcriptsProcessed ?s' \<le> transcriptsProcessed ?final \<and> errors ?s' \<le> errors ?final"
    using run_windows_counts [of ?s' d post] by blast
  from run_windows_rows [of d ?s' post] obtain J where
    j: "raw_rows (pstore ?final) = mark_rows J (raw_rows (pstore ?s'))"
    by blast
  have k: "\<forall>I. (\<forall>r \<in> set (raw_rows (pstore ?s')). t_id r \<in> I \<longrightarrow> t_processed r)
                 \<longrightarrow> (\<forall>r \<in> set (raw_rows (pstore ?final)). t_id r \<in> I \<longrightarrow> t_processed r)"
    unfolding j using mark_rows_keeps_processed by blast
  from p c k show ?thesis
    by blast
qed

text \<open>
  C6. A window whose content is shorter than 100 characters has all its member records
  marked processed and counted; no session row is inserted, no session is counted and
  the error count stays as it was.
\<close>

theorem short_window_marked_without_session:
  assumes "length (w_content win) < 100"
  shows "errors (process_window d win s) = errors s
       \<and> sessionsCreated (process_window d win s) = sessionsCreated s
       \<and> session_rows (pstore (process_window d win s)) = session_rows (pstore s)
       \<and> transcriptsProcessed (process_window d win s)
           = transcriptsProcessed s + length (w_transcripts win)
       \<and> raw_rows (pstore (process_window d win s))
           = mark_rows (t_id ` set (w_transcripts win)) (raw_rows (pstore s))
       \<and> (\<forall>r \<in> set (raw_rows (pstore (process_window d win s))).
             t_id r \<in> t_id ` set (w_transcripts win) \<longrightarrow> t_processed r)"
  using assms by (auto simp: process_window_def mark_window_fields dest: mark_rows_processed)

text \<open>Witness for C6: a pass over \<^verbatim>\<open>[rec_a, rec_b]\<close>, whose single window holds 11
  characters, with a store whose inserts would fail.\<close>

theorem short_window_marked_without_session_witness:
  "length (w_content window_ab) < 100
   \<and> fst (processTranscripts failing_db (FetchData (Some [rec_a, rec_b])) store0)
       = \<lparr>sum_processed = 2, sum_sessions = Some 0, sum_errors = 0\<rparr>
   \<and> session_rows (snd (processTranscripts failing_db (FetchData (Some [rec_a, rec_b])) store0)) = []
   \<and> map t_processed
        (raw_rows (snd (processTranscripts failing_db (FetchData (Some [rec_a, rec_b])) store0)))
       = [True, True, False]"
proof -
  have l: "length (w_content window_ab) < 100"
    by (simp add: window_ab_def)
  have n: "length (w_transcripts window_ab) = 2" "t_id ` set (w_transcripts window_ab) = {1, 2}"
    by (simp_all add: window_ab_def rec_a_def rec_b_def)
  have m: "map t_processed (mark_rows {1, 2} (raw_rows (pstore start_state))) = [True, True, False]"
    by (simp add: start_state_values mark_rows_def rec_a_def rec_b_def rec_long_def)
  from short_window_marked_without_session [OF l, of failing_db start_state]
  have "errors (process_window failing_db window_ab start_state) = 0
      \<and> sessionsCreated (process_window failing_db window_ab start_state) = 0
      \<and> session_rows (pstore (process_window failing_db window_ab start_state)) = []
      \<and> transcriptsProcessed (process_window failing_db window_ab start_state) = 2
      \<and> raw_rows (pstore (process_window failing_db window_ab start_state))
          = mark_rows {1, 2} (raw_rows (pstore start_state))"
    by (simp add: n start_state_values)
  then show ?thesis
    using l m by (simp add: pass_ab)
qed

text \<open>
  C3. When the insert of a window's session fails with a message that includes
  \<^verbatim>\<open>duplicate key\<close>, the error count is not incremented, every member record is marked
  processed and the members are counted as processed (the window is also counted as a
  session created); no row is added.
\<close>

theorem duplicate_key_is_success:
  assumes "100 \<le> length (w_content win)"
    and "insert_error d (session_row d win) (pstore s) = Some (Some msg)"
    and "str_includes msg ''duplicate key''"
  shows "errors (process_window d win s) = errors s
       \<and> transcriptsProcessed (process_window d win s)
           = transcriptsProcessed s + length (w_transcripts win)
       \<and> raw_rows (pstore (process_window d win s))
           = mark_rows (t_id ` set (w_transcripts win)) (raw_rows (pstore s))
       \<and> session_rows (pstore (process_window d win s)) = session_rows (pstore s)
       \<and> sessionsCreated (process_window d win s) = sessionsCreated s + 1
       \<and> (\<forall>r \<in> set (raw_rows (pstore (process_window d win s))).
             t_id r \<in> t_id ` set (w_transcripts win) \<longrightarrow> t_processed r)"
proof -
  have "msg \<noteq> []"
    using assms(3) by auto
  then have "is_duplicate_key (Some msg)"
    using assms(3) by (simp add: is_duplicate_key_def truthy_str_def)
  then have "process_window d win s
             = (mark_window win s)\<lparr>sessionsCreated := sessionsCreated (mark_window win s) + 1\<rparr>"
    using assms(1,2) by (simp add: process_window_def Let_def)
  then show ?thesis
    by (auto simp: mark_window_fields dest: mark_rows_processed)
qed

text \<open>Witness for C3: a pass over \<^verbatim>\<open>[rec_long]\<close> against a store that answers every
  insert with a duplicate-key error.\<close>

theorem duplicate_key_is_success_witness:
  "100 \<le> length (w_content window_long)
   \<and> insert_error duplicate_db (session_row duplicate_db window_long) (pstore start_state)
       = Some (Some ''duplicate key value violates unique constraint'')
   \<and> str_includes ''duplicate key value violates unique constraint'' ''duplicate key''
   \<and> fst (processTranscripts duplicate_db (FetchData (Some [rec_long])) store0)
       = \<lparr>sum_processed = 1, sum_sessions = Some 1, sum_errors = 0\<rparr>
   \<and> map t_processed
        (raw_rows (snd (processTranscripts duplicate_db (FetchData (Some [rec_long])) store0)))
       = [False, False, True]"
proof -
  have l: "100 \<le> length (w_content window_long)"
    by (simp add: window_long_def)
  have i: "insert_error duplicate_db (session_row duplicate_db window_long) (pstore start_state)
       = Some (Some ''duplicate key value violates unique constraint'')"
    by (simp add: duplicate_db_def)
  have d: "str_includes ''duplicate key value violates unique constraint'' ''duplicate key''"
    by simp
  have n: "length (w_transcripts window_long) = 1" "t_id ` set (w_transcripts window_long) = {5}"
    by (simp_all add: window_long_def rec_long_def)
  have m: "map t_processed (mark_rows {5} (raw_rows (pstore start_state))) = [False, False, True]"
    by (simp add: start_state_values mark_rows_def rec_a_def rec_b_def rec_long_def)
  from duplicate_key_is_success [OF l i d]
  have "errors (process_window duplicate_db window_long start_state) = 0
      \<and> transcriptsProcessed (process_window duplicate_db window_long start_state) = 1
      \<and> raw_rows (pstore (process_window duplicate_db window_long start_state))
          = mark_rows {5} (raw_rows (pstore start_state))
      \<and> sessionsCreated (process_window duplicate_db window_long start_state) = 1"
    by (simp add: n start_state_values)
  then show ?thesis
    using l i d m by (simp add: pass_long)
qed

text \<open>
  C7. When the insert of a window's session fails with an error whose message is absent
  or does not include \<^verbatim>\<open>duplicate key\<close>, the error count grows by one and the store is
  unchanged: no member record is marked, none is counted, no session is counted.
\<close>

theorem other_insert_error_counted:
  assumes "100 \<le> length (w_content win)"
    and "insert_error d (session_row d win) (pstore s) = Some message"
    and "\<forall>msg. message = Some msg \<longrightarrow> \<not> str_includes msg ''duplicate key''"
  shows "errors (process_window d win s) = errors s + 1
       \<and> pstore (process_window d win s) = pstore s
       \<and> transcriptsProcessed (process_window d win s) = transcriptsProcessed s
       \<and> sessionsCreated (process_window d win s) = sessionsCreated s"
proof -
  have "\<not> is_duplicate_key message"
    using assms(3) by (auto simp: is_duplicate_key_def truthy_str_def split: option.splits if_splits)
  then have "process_window d win s = s\<lparr>errors := errors s + 1\<rparr>"
    using assms(1,2) by (simp add: process_window_def)
  then show ?thesis
    by simp
qed

text \<open>Witness for C7: a pass over \<^verbatim>\<open>[rec_long]\<close> against a store whose inserts fail
  with another error.\<close>

theorem other_insert_error_counted_witness:
  "100 \<le> length (w_content window_long)
   \<and> insert_error failing_db (session_row failing_db window_long) (pstore start_state)
       = Some (Some ''connection terminated'')
   \<and> \<not> str_includes ''connection terminated'' ''duplicate key''
   \<and> processTranscripts failing_db (FetchData (Some [rec_long])) store0
       = (\<lparr>sum_processed = 0, sum_sessions = Some 0, sum_errors = 1\<rparr>, store0)"
proof -
  have l: "100 \<le> length (w_content window_long)"
    by (simp add: window_long_def)
  have i: "insert_error failing_db (session_row failing_db window_long) (pstore start_state)
       = Some (Some ''connection terminated'')"
    by (simp add: failing_db_def)
  have d: "\<forall>msg. Some ''connection terminated'' = Some msg \<longrightarrow> \<not> str_includes msg ''duplicate key''"
    by simp
  from other_insert_error_counted [OF l i d]
  have "errors (process_window failing_db window_long start_state) = 1
      \<and> pstore (process_window failing_db window_long start_state) = store0
      \<and> transcriptsProcessed (process_window failing_db window_long start_state) = 0
      \<and> sessionsCreated (process_window failing_db window_long start_state) = 0"
    by (simp add: start_state_values)
  then show ?thesis
    using l i by (simp add: pass_long)
qed

end
